theory Spec2Isabelle
  imports Main
begin

section \<open>Data model\<close>

text \<open>
  Shallow embedding of \<^verbatim>\<open>golem/core/dialog_manager.py\<close> (class
  \<^verbatim>\<open>DialogManager\<close>). A \<^verbatim>\<open>DialogManager\<close> object is the record \<open>dialog\<close> of
  its mutable attributes together with the traces of what it did to its collaborators (the
  channel adapter, the redis store, the test recorder, the task queue, the root logger at
  error level). What is fixed at construction (the flow registry, the chat id, the
  configuration) is the record \<open>env\<close>. Every method takes the dialog and returns an
  \<open>outcome\<close>: it returns a value, or it raises, and in both cases the mutations made so
  far remain.

  Exceptions are the instances of Python's \<^verbatim>\<open>Exception\<close>, which is what
  \<^verbatim>\<open>except Exception\<close> catches. Log lines at info and warning level and the analytics
  logger (\<^verbatim>\<open>golem.core.logger.Logger\<close>, \<^verbatim>\<open>message_logger\<close>) are write-only
  sinks and are left out.
\<close>

datatype exn = AttributeError | ValueError | Exception string

datatype message = TextMessage string

datatype iface_event =
    ProcessingStart
  | ProcessingEnd
  | StateChange string
  | PostMessage message

datatype rec_event =
    RecUserMessage string "(string \<times> string) list"
  | RecBotMessage message
  | RecStateChange string

datatype task = InactivityCallback string int nat

datatype log_entry = LogError string | LogException string exn

text \<open>
  The class \<^verbatim>\<open>Context\<close> (\<^verbatim>\<open>golem/core/context.py\<close>) is not among the sources.
  Its fields are those the specification lists: the turn counter, the entities with
  their age in turns, and the history of visited states with their timestamps.
\<close>

record Context =
  counter :: int
  entities :: "(string \<times> string \<times> nat) list"
  history :: "(string \<times> nat) list"

text \<open>The redis store: the keys that \<^verbatim>\<open>DialogManager\<close> reads and writes.\<close>

record store =
  dialog_version :: "string option"
  session_state :: "string \<rightharpoonup> string"
  session_context :: "string \<rightharpoonup> Context"
  session_interface :: "string \<rightharpoonup> string"
  session_active :: "string \<rightharpoonup> nat"
  chat_session :: "string \<rightharpoonup> string \<times> string"

text \<open>
  \<open>ctxt\<close> is \<^verbatim>\<open>self.context\<close> (\<open>None\<close> until the constructor's last line);
  \<open>recording\<close> is \<^verbatim>\<open>self.recording\<close>, an attribute that exists only once
  \<^verbatim>\<open>test_record_message\<close> has set it (\<open>None\<close>: reading it raises
  \<^verbatim>\<open>AttributeError\<close>); \<open>now\<close> is the reading of \<^verbatim>\<open>time.time()\<close>.
\<close>

record dialog =
  current_state_name :: string
  ctxt :: "Context option"
  recording :: "bool option"
  db :: store
  sent :: "iface_event list"
  recorder :: "rec_event list"
  tasks :: "task list"
  errlog :: "log_entry list"
  now :: nat

datatype 'a outcome = Returned 'a dialog | Raised exn dialog

fun final :: "'a outcome \<Rightarrow> dialog" where
  "final (Returned v d) = d"
| "final (Raised x d) = d"

text \<open>
  The classes \<^verbatim>\<open>Flow\<close> and \<^verbatim>\<open>State\<close> (\<^verbatim>\<open>golem/core/flow.py\<close>) are not
  among the sources either. An action is any callable on the dialog. A state has its
  action (possibly none), its requirements in declared order and its method
  \<^verbatim>\<open>accepts_message\<close>; a flow has its name, its states by local name and its methods
  \<^verbatim>\<open>get_state_for_intent\<close> and \<^verbatim>\<open>matches_intent\<close>, taken as they are.
\<close>

record requirement =
  req_matches :: "Context \<Rightarrow> bool"
  req_action :: "dialog \<Rightarrow> unit outcome"

record state =
  action :: "(dialog \<Rightarrow> unit outcome) option"
  requires :: "requirement list"
  accepts_message :: "string list \<Rightarrow> bool"

record flow =
  flow_name :: string
  states :: "(string \<times> state) list"
  get_state_for_intent :: "string \<Rightarrow> string option"
  matches_intent :: "string \<Rightarrow> bool"

text \<open>
  \<open>flows\<close> is \<^verbatim>\<open>self.flows\<close> in insertion order; \<open>debug\<close> is
  \<^verbatim>\<open>Context.debug\<close> (\<open>None\<close>: it raises); \<open>record_start\<close> and \<open>record_stop\<close> are
  the responses of \<^verbatim>\<open>ConversationTestRecorder\<close>; the rest is read from
  \<^verbatim>\<open>settings.GOLEM_CONFIG\<close> and from the chat session.
\<close>

record env =
  flows :: "(string \<times> flow) list"
  chat_id :: string
  interface_name :: string
  error_message_text :: string
  inactive_callbacks :: "(string \<times> nat) list"
  debug :: "Context \<Rightarrow> string option"
  record_start :: "message list"
  record_stop :: "message list"

datatype target = TNone | TName string | TInt int

definition version :: string where
  "version = ''1.32''"

section \<open>Strings\<close>

text \<open>\<^verbatim>\<open>s.split(sep, 1)\<close> when \<open>sep\<close> occurs in \<open>s\<close>; \<open>None\<close> when it does not
  (the list then has the single element \<open>s\<close>).\<close>

fun split_once :: "char \<Rightarrow> string \<Rightarrow> (string \<times> string) option" where
  "split_once sep [] = None"
| "split_once sep (c # cs) =
     (if c = sep then Some ([], cs)
      else (case split_once sep cs of
              None \<Rightarrow> None
            | Some (a, b) \<Rightarrow> Some (c # a, b)))"

text \<open>Python's truth value of a string or \<^verbatim>\<open>None\<close>.\<close>

fun truthy :: "string option \<Rightarrow> bool" where
  "truthy None = False"
| "truthy (Some s) = (s \<noteq> [])"

text \<open>\<^verbatim>\<open>x or y\<close> on a string or \<^verbatim>\<open>None\<close>.\<close>

fun or_else :: "string option \<Rightarrow> string \<Rightarrow> string" where
  "or_else None y = y"
| "or_else (Some s) y = (if s = [] then y else s)"

text \<open>\<^verbatim>\<open>str.format\<close> of a string or \<^verbatim>\<open>None\<close>.\<close>

fun show_opt :: "string option \<Rightarrow> string" where
  "show_opt None = ''None''"
| "show_opt (Some s) = s"

section \<open>Context\<close>

text \<open>
  Modelled from the spec: \<^verbatim>\<open>Context.from_dict\<close> on the empty dictionary, missing
  from the sources. "Context is created empty when no prior session exists"; the counter
  starts at 0 (Scenario A: after the first event \<^verbatim>\<open>counter == 1\<close>).
\<close>

definition empty_context :: Context where
  "empty_context = \<lparr>counter = 0, entities = [], history = []\<rparr>"

text \<open>
  Modelled from the spec: \<^verbatim>\<open>Context.get_age\<close>, missing from the sources: the
  value of an entity and its age, or nothing.
\<close>

definition get_age :: "Context \<Rightarrow> string \<Rightarrow> (string \<times> nat) option" where
  "get_age c entity = map_of (entities c) entity"

text \<open>
  Modelled from the spec: \<^verbatim>\<open>Context.get\<close>, missing from the sources.
  "\<^verbatim>\<open>get(name, max_age)\<close> returns the value only if its age \<open>\<le>\<close> max_age".
\<close>

definition context_get :: "Context \<Rightarrow> string \<Rightarrow> nat \<Rightarrow> string option" where
  "context_get c entity max_age =
     (case get_age c entity of
        None \<Rightarrow> None
      | Some (v, age) \<Rightarrow> if age \<le> max_age then Some v else None)"

text \<open>
  Modelled from the spec: \<^verbatim>\<open>Context.intent.get\<close>, missing from the sources.
  The intent is "itself stored as an aged entity" and is read at any age.
\<close>

definition intent_get :: "Context \<Rightarrow> string option" where
  "intent_get c = map_option fst (get_age c ''intent'')"

text \<open>
  Modelled from the spec: \<^verbatim>\<open>Context.add_entities\<close>, missing from the sources.
  "new entity age = 0; all previously existing entities not in this turn's set age by +1".
  It returns the entities of the turn.
\<close>

definition add_entities ::
  "Context \<Rightarrow> (string \<times> string) list \<Rightarrow> (string \<times> string) list \<times> Context" where
  "add_entities c new =
     (new,
      c\<lparr>entities :=
          map (\<lambda>(k, v). (k, v, 0)) new @
          map (\<lambda>(k, v, age). (k, v, Suc age))
            (filter (\<lambda>(k, v, age). k \<notin> set (map fst new)) (entities c))\<rparr>)"

text \<open>
  Modelled from the spec: \<^verbatim>\<open>Context.add_state\<close>, missing from the sources:
  "append \<open>{target, now}\<close> to history".
\<close>

definition add_state :: "Context \<Rightarrow> string \<Rightarrow> nat \<Rightarrow> Context" where
  "add_state c state_name t = c\<lparr>history := history c @ [(state_name, t)]\<rparr>"

text \<open>
  Modelled from the spec: \<^verbatim>\<open>Context.get_history_state\<close>, missing from the
  sources. The offset is a "1-based index from the end, excluding the current entry":
  offset 1 is the entry before the last one. Any other offset yields nothing.
\<close>

definition get_history_state :: "Context \<Rightarrow> int \<Rightarrow> (string \<times> nat) option" where
  "get_history_state c i =
     (if 1 \<le> i \<and> i < int (length (history c))
      then Some (history c ! (length (history c) - 1 - nat i))
      else None)"

section \<open>States and flows\<close>

text \<open>
  Modelled from the spec: \<^verbatim>\<open>State.check_requirements\<close>, missing from the
  sources: it "evaluates the state's requirements in declared order"; requirements "are
  pure predicates over the Context".
\<close>

definition check_requirements :: "state \<Rightarrow> Context \<Rightarrow> bool" where
  "check_requirements st c = list_all (\<lambda>r. req_matches r c) (requires st)"

text \<open>
  Modelled from the spec: \<^verbatim>\<open>State.get_first_requirement\<close>, missing from the
  sources: "the first unmet requirement".
\<close>

definition get_first_requirement :: "state \<Rightarrow> Context \<Rightarrow> requirement option" where
  "get_first_requirement st c = find (\<lambda>r. \<not> req_matches r c) (requires st)"

text \<open>\<^verbatim>\<open>get_flow\<close>, lines 222-225. Unpacking the split of a name without a dot
  raises \<^verbatim>\<open>ValueError\<close>.\<close>

definition get_flow :: "env \<Rightarrow> dialog \<Rightarrow> string option \<Rightarrow> exn + flow option" where
  "get_flow e d fname =
     (if \<not> truthy fname then
        (case split_once CHR ''.'' (current_state_name d) of
           None \<Rightarrow> Inl ValueError
         | Some (fl, _) \<Rightarrow> Inr (map_of (flows e) fl))
      else Inr (map_of (flows e) (or_else fname [])))"

text \<open>\<^verbatim>\<open>get_state\<close>, lines 227-230; \<^verbatim>\<open>Flow.get_state\<close> looks the local name up
  in the flow's states.\<close>

definition get_state :: "env \<Rightarrow> dialog \<Rightarrow> string option \<Rightarrow> exn + state option" where
  "get_state e d flow_state_name =
     (case split_once CHR ''.'' (or_else flow_state_name (current_state_name d)) of
        None \<Rightarrow> Inl ValueError
      | Some (fl, sn) \<Rightarrow>
          (case get_flow e d (Some fl) of
             Inl x \<Rightarrow> Inl x
           | Inr None \<Rightarrow> Inr None
           | Inr (Some f) \<Rightarrow> Inr (map_of (states f) sn)))"

section \<open>Persistence and responses\<close>

text \<open>\<^verbatim>\<open>save_state\<close>, lines 291-303. The serialised context is kept as the context.\<close>

definition save_state :: "env \<Rightarrow> dialog \<Rightarrow> dialog" where
  "save_state e d =
     (case ctxt d of
        None \<Rightarrow> d
      | Some c \<Rightarrow>
          d\<lparr>db := (db d)\<lparr>
              session_state := (session_state (db d))(chat_id e \<mapsto> current_state_name d),
              session_context := (session_context (db d))(chat_id e \<mapsto> c),
              session_interface := (session_interface (db d))(chat_id e \<mapsto> interface_name e),
              dialog_version := Some version,
              chat_session := (chat_session (db d))(chat_id e \<mapsto> (interface_name e, chat_id e))\<rparr>\<rparr>)"

text \<open>The first loop of \<^verbatim>\<open>send_response\<close>, lines 313-322: post each response and
  record it when recording.\<close>

fun post_responses :: "message list \<Rightarrow> dialog \<Rightarrow> unit outcome" where
  "post_responses [] d = Returned () d"
| "post_responses (m # ms) d =
     (let d1 = d\<lparr>sent := sent d @ [PostMessage m]\<rparr> in
      case recording d1 of
        None \<Rightarrow> Raised AttributeError d1
      | Some r \<Rightarrow>
          post_responses ms
            (if r then d1\<lparr>recorder := recorder d1 @ [RecBotMessage m]\<rparr> else d1))"

text \<open>\<^verbatim>\<open>send_response\<close>, lines 305-334, as this file calls it: with a list of
  messages (a bare string is first wrapped into a \<^verbatim>\<open>TextMessage\<close>) and without
  \<^verbatim>\<open>next\<close>.\<close>

definition send_response :: "message list \<Rightarrow> dialog \<Rightarrow> unit outcome" where
  "send_response responses d =
     (if responses = [] then Returned () d else post_responses responses d)"

section \<open>Running actions\<close>

text \<open>\<^verbatim>\<open>run_accept\<close>, lines 170-176. The parameter \<^verbatim>\<open>save_identical\<close> is not
  used by the body.\<close>

definition run_accept :: "env \<Rightarrow> bool \<Rightarrow> dialog \<Rightarrow> unit outcome" where
  "run_accept e save_identical d =
     (case get_state e d None of
        Inl x \<Rightarrow> Raised x d
      | Inr None \<Rightarrow> Raised AttributeError d
      | Inr (Some st) \<Rightarrow>
          (case action st of
             None \<Rightarrow> Returned () d
           | Some a \<Rightarrow> a d))"

section \<open>move_to\<close>

text \<open>Lines 239-244: the name is the current state when there is none, loses its
  \<^verbatim>\<open>:action\<close> suffix, and gets the current flow as prefix when it has no dot.\<close>

definition resolve_name ::
  "string \<Rightarrow> string option \<Rightarrow> string option \<Rightarrow> string \<times> string option" where
  "resolve_name current nm act =
     (let n1 = or_else nm current;
          (n2, act2) =
            (if CHR '':'' \<in> set n1
             then (case split_once CHR '':'' n1 of
                     None \<Rightarrow> (n1, act)
                   | Some (a, b) \<Rightarrow> (a, Some b))
             else (n1, act));
          n3 =
            (if CHR ''.'' \<notin> set n2
             then takeWhile (\<lambda>c. c \<noteq> CHR ''.'') current @ ''.'' @ n2
             else n2)
      in (n3, act2))"

text \<open>Lines 234-244: the name and the action variant that the argument resolves to.
  An integer is looked up in the history, at the offset one less.\<close>

definition move_to_resolve ::
  "env \<Rightarrow> target \<Rightarrow> dialog \<Rightarrow> exn + string \<times> string option" where
  "move_to_resolve e tgt d =
     (case tgt of
        TInt n \<Rightarrow>
          (case ctxt d of
             None \<Rightarrow> Inl AttributeError
           | Some c \<Rightarrow>
               Inr (resolve_name (current_state_name d)
                      (map_option fst (get_history_state c (n - 1))) None))
      | TName s \<Rightarrow> Inr (resolve_name (current_state_name d) (Some s) (Some ''init''))
      | TNone \<Rightarrow> Inr (resolve_name (current_state_name d) None (Some ''init'')))"

text \<open>Lines 267-273: the body of the \<^verbatim>\<open>try\<close> after its two log lines.\<close>

definition move_to_try :: "env \<Rightarrow> string \<Rightarrow> string \<Rightarrow> dialog \<Rightarrow> unit outcome" where
  "move_to_try e previous_state new_state_name d =
     (if previous_state \<noteq> new_state_name then
        (case get_state e d (Some new_state_name) of
           Inl x \<Rightarrow> Raised x d
         | Inr None \<Rightarrow> Raised AttributeError d
         | Inr (Some new_state) \<Rightarrow>
             (case ctxt d of
                None \<Rightarrow> Raised AttributeError d
              | Some c \<Rightarrow>
                  if check_requirements new_state c then run_accept e False d
                  else (case get_first_requirement new_state c of
                          None \<Rightarrow> Raised AttributeError d
                        | Some requirement \<Rightarrow> req_action requirement d)))
      else Returned () d)"

text \<open>Lines 280-284: the log line with the snapshot of the context. Whatever raises
  while it is computed (no current state, no context, \<^verbatim>\<open>debug\<close> itself) is dropped
  by the inner \<^verbatim>\<open>except\<close>, and nothing is logged.\<close>

definition context_snapshot :: "env \<Rightarrow> dialog \<Rightarrow> log_entry list" where
  "context_snapshot e d =
     (case get_state e d None of
        Inr (Some st) \<Rightarrow>
          (case ctxt d of
             None \<Rightarrow> []
           | Some c \<Rightarrow>
               (case debug e c of
                  None \<Rightarrow> []
                | Some context_debug \<Rightarrow> [LogError (''Context: '' @ context_debug)]))
      | _ \<Rightarrow> [])"

text \<open>Lines 275-286: the handler.\<close>

definition move_to_except ::
  "env \<Rightarrow> string option \<Rightarrow> string \<Rightarrow> exn \<Rightarrow> dialog \<Rightarrow> unit outcome" where
  "move_to_except e act new_state_name x d =
     send_response [TextMessage (error_message_text e)]
       (d\<lparr>errlog := errlog d @
            [LogError ''*****************************************************'',
             LogError (''Exception occurred while running action '' @ show_opt act @
                       '' of state '' @ new_state_name),
             LogError (''Chat id: '' @ chat_id e)] @
            context_snapshot e d @
            [LogException ''Exception follows'' x]\<rparr>)"

text \<open>Lines 275-289: what follows the \<^verbatim>\<open>try\<close>. An exception of the body is
  handled, the state is saved, and \<^verbatim>\<open>move_to\<close> returns \<^verbatim>\<open>True\<close>.\<close>

definition move_to_finish ::
  "env \<Rightarrow> string option \<Rightarrow> string \<Rightarrow> unit outcome \<Rightarrow> bool outcome" where
  "move_to_finish e act new_state_name out =
     (case out of
        Returned _ d5 \<Rightarrow> Returned True (save_state e d5)
      | Raised x d5 \<Rightarrow>
          (case move_to_except e act new_state_name x d5 of
             Raised y d6 \<Rightarrow> Raised y d6
           | Returned _ d6 \<Rightarrow> Returned True (save_state e d6)))"

text \<open>\<^verbatim>\<open>move_to\<close>, lines 232-289.\<close>

definition move_to :: "env \<Rightarrow> target \<Rightarrow> bool \<Rightarrow> bool \<Rightarrow> dialog \<Rightarrow> bool outcome" where
  "move_to e tgt initializing save_identical d =
     (case move_to_resolve e tgt d of
        Inl x \<Rightarrow> Raised x d
      | Inr (new_state_name, act) \<Rightarrow>
          (case get_state e d (Some new_state_name) of
             Inl x \<Rightarrow> Raised x d
           | Inr None \<Rightarrow> Returned False d
           | Inr (Some _) \<Rightarrow>
               (let identical = (new_state_name = current_state_name d) in
                case (if \<not> initializing \<and> (\<not> identical \<or> save_identical)
                      then (case ctxt d of
                              None \<Rightarrow> Inl AttributeError
                            | Some c \<Rightarrow>
                                Inr (d\<lparr>ctxt := Some (add_state c new_state_name (now d))\<rparr>))
                      else Inr d) of
                  Inl x \<Rightarrow> Raised x d
                | Inr d1 \<Rightarrow>
                    if new_state_name = [] \<or> identical then Returned False d1
                    else
                      (let previous_state = current_state_name d1;
                           d2 = d1\<lparr>current_state_name := new_state_name\<rparr>
                       in if initializing then Returned True (save_state e d2)
                          else
                            (let d3 = d2\<lparr>sent := sent d2 @ [StateChange new_state_name]\<rparr> in
                             case recording d3 of
                               None \<Rightarrow> Raised AttributeError d3
                             | Some r \<Rightarrow>
                                 (let d4 = (if r then d3\<lparr>recorder := recorder d3 @
                                                          [RecStateChange new_state_name]\<rparr>
                                            else d3);
                                      d5 = d4\<lparr>errlog := errlog d4 @
                                                [LogError previous_state,
                                                 LogError new_state_name]\<rparr>
                                  in move_to_finish e act new_state_name
                                       (move_to_try e previous_state new_state_name d5)))))))"

text \<open>The dialog on which line 267 runs when \<^verbatim>\<open>move_to\<close> leaves the current state
  for \<open>new_state_name\<close> (lines 250-266), \<open>c\<close> being the context and \<open>r\<close> the recording
  flag: the history entry, the pointer, the notification of the channel adapter, the
  recorder, the two log lines.\<close>

definition entered :: "string \<Rightarrow> Context \<Rightarrow> bool \<Rightarrow> dialog \<Rightarrow> dialog" where
  "entered new_state_name c r d =
     d\<lparr>ctxt := Some (add_state c new_state_name (now d)),
       current_state_name := new_state_name,
       sent := sent d @ [StateChange new_state_name],
       recorder := (if r then recorder d @ [RecStateChange new_state_name] else recorder d),
       errlog := errlog d @ [LogError (current_state_name d), LogError new_state_name]\<rparr>"

section \<open>The transition rules\<close>

text \<open>\<^verbatim>\<open>check_state_transition\<close>, lines 191-193.\<close>

definition check_state_transition :: "env \<Rightarrow> dialog \<Rightarrow> bool outcome" where
  "check_state_transition e d =
     (case ctxt d of
        None \<Rightarrow> Raised AttributeError d
      | Some c \<Rightarrow>
          move_to e (case context_get c ''_state'' 0 of
                       None \<Rightarrow> TNone
                     | Some s \<Rightarrow> TName s) False False d)"

text \<open>Lines 203-212 of \<^verbatim>\<open>check_intent_transition\<close>: the state of the current flow
  for the intent, else the root of the first flow that matches it.\<close>

definition intent_target :: "env \<Rightarrow> flow \<Rightarrow> string \<Rightarrow> string option" where
  "intent_target e fl intent =
     (if truthy (get_state_for_intent fl intent) then get_state_for_intent fl intent
      else (case find (\<lambda>f. matches_intent f intent) (map snd (flows e)) of
              None \<Rightarrow> get_state_for_intent fl intent
            | Some f \<Rightarrow> Some (flow_name f @ ''.root'')))"

text \<open>\<^verbatim>\<open>check_intent_transition\<close>, lines 195-220.\<close>

definition check_intent_transition :: "env \<Rightarrow> dialog \<Rightarrow> bool outcome" where
  "check_intent_transition e d =
     (case ctxt d of
        None \<Rightarrow> Raised AttributeError d
      | Some c \<Rightarrow>
          if \<not> truthy (intent_get c) then Returned False d
          else
            (case get_flow e d None of
               Inl x \<Rightarrow> Raised x d
             | Inr None \<Rightarrow> Raised AttributeError d
             | Inr (Some fl) \<Rightarrow>
                 (let new_state_name = intent_target e fl (or_else (intent_get c) []) in
                  if \<not> truthy new_state_name then
                    Returned False
                      (d\<lparr>errlog := errlog d @
                           [LogError (''Error! Found intent '' @ [CHR 0x22] @
                                      or_else (intent_get c) [] @ [CHR 0x22] @
                                      '' but no flow present for it!'')]\<rparr>)
                  else move_to e (TName (or_else new_state_name [])) False False d)))"

text \<open>\<^verbatim>\<open>move_by_entities\<close>, lines 82-85.\<close>

definition move_by_entities ::
  "env \<Rightarrow> (string \<times> string) list \<Rightarrow> dialog \<Rightarrow> unit outcome" where
  "move_by_entities e ents d =
     (case move_to e (TName ''default.root'') False False d of
        Raised x d1 \<Rightarrow> Raised x d1
      | Returned _ d1 \<Rightarrow> Returned () d1)"

section \<open>Processing a turn\<close>

text \<open>\<^verbatim>\<open>test_record_message\<close>, lines 151-168. The value of the entity is read both
  as \<^verbatim>\<open>record.value\<close> and as \<^verbatim>\<open>record\<close>.\<close>

definition test_record_message ::
  "env \<Rightarrow> string \<Rightarrow> (string \<times> string) list \<Rightarrow> dialog \<Rightarrow> bool outcome" where
  "test_record_message e message_type ents d =
     (case ctxt d of
        None \<Rightarrow> Raised AttributeError d
      | Some c \<Rightarrow>
          (let d1 = d\<lparr>recording := Some False\<rparr> in
           case get_age c ''test_record'' of
             None \<Rightarrow> Returned False d1
           | Some (rec, record_age) \<Rightarrow>
               if rec = [] then Returned False d1
               else if record_age = 0 then
                 (case send_response
                         (if rec = ''start'' then record_start e
                          else if rec = ''stop'' then record_stop e
                          else [TextMessage ''Use /test_record/start/ or /test_record/stop/''])
                         d1 of
                    Raised x d2 \<Rightarrow> Raised x d2
                  | Returned _ d2 \<Rightarrow> Returned True (save_state e d2))
               else if rec = ''start'' then
                 Returned False
                   (d1\<lparr>recorder := recorder d1 @ [RecUserMessage message_type ents],
                       recording := Some True\<rparr>)
               else Returned False d1))"

text \<open>\<^verbatim>\<open>inactive\<close>, lines 136-140, for each configured callback.\<close>

fun inactive_all :: "(string \<times> nat) list \<Rightarrow> dialog \<Rightarrow> unit outcome" where
  "inactive_all [] d = Returned () d"
| "inactive_all ((callback_name, seconds) # cbs) d =
     (case ctxt d of
        None \<Rightarrow> Raised AttributeError d
      | Some c \<Rightarrow>
          inactive_all cbs
            (d\<lparr>tasks := tasks d @ [InactivityCallback callback_name (counter c) seconds]\<rparr>))"

text \<open>\<^verbatim>\<open>save_inactivity_callback\<close>, lines 142-149.\<close>

definition save_inactivity_callback :: "env \<Rightarrow> dialog \<Rightarrow> unit outcome" where
  "save_inactivity_callback e d =
     inactive_all (inactive_callbacks e)
       (d\<lparr>db := (db d)\<lparr>session_active := (session_active (db d))(chat_id e \<mapsto> now d)\<rparr>\<rparr>)"

text \<open>Lines 88-106 of \<^verbatim>\<open>process\<close>: what happens before the transition rules.
  The result is \<open>None\<close> when the method returns there, and the entities of the turn
  otherwise.\<close>

definition process_begin ::
  "env \<Rightarrow> string \<Rightarrow> (string \<times> string) list \<Rightarrow> dialog
     \<Rightarrow> (string \<times> string) list option outcome" where
  "process_begin e message_type ents d =
     (let d0 = d\<lparr>sent := sent d @ [ProcessingStart]\<rparr> in
      if message_type \<notin> set [''message'', ''postback'', ''schedule''] then Returned None d0
      else
        (case ctxt d0 of
           None \<Rightarrow> Raised AttributeError d0
         | Some c \<Rightarrow>
             (let c1 = c\<lparr>counter := counter c + 1\<rparr>;
                  (ents1, c2) = add_entities c1 ents;
                  d1 = d0\<lparr>ctxt := Some c2\<rparr>
              in case test_record_message e message_type ents1 d1 of
                   Raised x d2 \<Rightarrow> Raised x d2
                 | Returned True d2 \<Rightarrow> Returned None d2
                 | Returned False d2 \<Rightarrow>
                     if message_type \<noteq> ''schedule'' then
                       (case save_inactivity_callback e d2 of
                          Raised x d3 \<Rightarrow> Raised x d3
                        | Returned _ d3 \<Rightarrow> Returned (Some ents1) d3)
                     else Returned (Some ents1) d2)))"

text \<open>Lines 110-118 of \<^verbatim>\<open>process\<close>: the four rules.\<close>

definition process_transitions ::
  "env \<Rightarrow> (string \<times> string) list \<Rightarrow> dialog \<Rightarrow> unit outcome" where
  "process_transitions e ents d =
     (case check_state_transition e d of
        Raised x d1 \<Rightarrow> Raised x d1
      | Returned True d1 \<Rightarrow> Returned () d1
      | Returned False d1 \<Rightarrow>
          (case check_intent_transition e d1 of
             Raised x d2 \<Rightarrow> Raised x d2
           | Returned True d2 \<Rightarrow> Returned () d2
           | Returned False d2 \<Rightarrow>
               (case get_state e d2 None of
                  Inl x \<Rightarrow> Raised x d2
                | Inr None \<Rightarrow> Raised AttributeError d2
                | Inr (Some st) \<Rightarrow>
                    if accepts_message st (map fst ents) then
                      (case run_accept e True d2 of
                         Raised x d3 \<Rightarrow> Raised x d3
                       | Returned _ d3 \<Rightarrow> Returned () (save_state e d3))
                    else
                      (case move_by_entities e ents d2 of
                         Raised x d3 \<Rightarrow> Raised x d3
                       | Returned _ d3 \<Rightarrow> Returned () (save_state e d3)))))"

text \<open>\<^verbatim>\<open>process\<close>, lines 87-123.\<close>

definition process ::
  "env \<Rightarrow> string \<Rightarrow> (string \<times> string) list \<Rightarrow> dialog \<Rightarrow> unit outcome" where
  "process e message_type ents d =
     (case process_begin e message_type ents d of
        Raised x d1 \<Rightarrow> Raised x d1
      | Returned None d1 \<Rightarrow> Returned () d1
      | Returned (Some ents1) d1 \<Rightarrow>
          (case process_transitions e ents1 d1 of
             Raised x d2 \<Rightarrow> Raised x d2
           | Returned _ d2 \<Rightarrow> Returned () (d2\<lparr>sent := sent d2 @ [ProcessingEnd]\<rparr>)))"

section \<open>Construction\<close>

text \<open>The attributes after line 41 of \<^verbatim>\<open>__init__\<close>, on the store \<open>s\<close> at time
  \<open>t\<close>.\<close>

definition init_dialog :: "store \<Rightarrow> nat \<Rightarrow> dialog" where
  "init_dialog s t =
     \<lparr>current_state_name = ''default.root'', ctxt = None, recording = None, db = s,
      sent = [], recorder = [], tasks = [], errlog = [], now = t\<rparr>"

text \<open>\<^verbatim>\<open>__init__\<close>, lines 25-57. Decoding a missing \<^verbatim>\<open>session_state\<close> raises.\<close>

definition init :: "env \<Rightarrow> store \<Rightarrow> nat \<Rightarrow> exn + dialog" where
  "init e s t =
     (if truthy (dialog_version s) \<and> dialog_version s = Some version \<and>
         session_context s (chat_id e) \<noteq> None
      then
        (case session_state s (chat_id e) of
           None \<Rightarrow> Inl AttributeError
         | Some st \<Rightarrow>
             (case move_to e (TName st) True False (init_dialog s t) of
                Raised x d1 \<Rightarrow> Inl x
              | Returned _ d1 \<Rightarrow> Inr (d1\<lparr>ctxt := session_context s (chat_id e)\<rparr>)))
      else Inr ((init_dialog s t)\<lparr>current_state_name := ''default.root'',
                                   ctxt := Some empty_context\<rparr>))"

section \<open>Observations\<close>

text \<open>The history and the turn counter of a dialog.\<close>

definition history_of :: "dialog \<Rightarrow> (string \<times> nat) list" where
  "history_of d = (case ctxt d of None \<Rightarrow> [] | Some c \<Rightarrow> history c)"

definition counter_of :: "dialog \<Rightarrow> int option" where
  "counter_of d = map_option counter (ctxt d)"

text \<open>No action of the registry, of a state or of a requirement, changes the turn
  counter.\<close>

definition actions_keep_counter :: "env \<Rightarrow> bool" where
  "actions_keep_counter e =
     (\<forall>fl \<in> set (map snd (flows e)). \<forall>st \<in> set (map snd (states fl)).
        (\<forall>act d. action st = Some act \<longrightarrow> counter_of (final (act d)) = counter_of d) \<and>
        (\<forall>rq \<in> set (requires st). \<forall>d. counter_of (final (req_action rq d)) = counter_of d))"

section \<open>An example registry and session\<close>

text \<open>Two flows and a session in the middle of the second one, on which the theorems
  below are run.\<close>

definition say :: "string \<Rightarrow> dialog \<Rightarrow> unit outcome" where
  "say txt d = Returned () (d\<lparr>sent := sent d @ [PostMessage (TextMessage txt)]\<rparr>)"

definition failing :: "dialog \<Rightarrow> unit outcome" where
  "failing d = Raised (Exception ''boom'') d"

definition need_amount :: requirement where
  "need_amount =
     \<lparr>req_matches = (\<lambda>c. get_age c ''amount'' \<noteq> None), req_action = say ''How much?''\<rparr>"

definition need_card :: requirement where
  "need_card =
     \<lparr>req_matches = (\<lambda>c. get_age c ''card'' \<noteq> None), req_action = say ''Which card?''\<rparr>"

definition default_flow :: flow where
  "default_flow =
     \<lparr>flow_name = ''default'',
      states =
        [(''root'', \<lparr>action = Some (say ''Hello''), requires = [],
                     accepts_message = (\<lambda>ks. False)\<rparr>)],
      get_state_for_intent = (\<lambda>i. None),
      matches_intent = (\<lambda>i. False)\<rparr>"

definition collect_amount_state :: state where
  "collect_amount_state =
     \<lparr>action = Some (say ''Noted''), requires = [need_card],
      accepts_message = (\<lambda>ks. ''amount'' \<in> set ks)\<rparr>"

definition billing_flow :: flow where
  "billing_flow =
     \<lparr>flow_name = ''billing'',
      states =
        [(''root'', \<lparr>action = Some (say ''Billing''), requires = [],
                     accepts_message = (\<lambda>ks. False)\<rparr>),
         (''collect_amount'', collect_amount_state),
         (''pay'', \<lparr>action = Some (say ''Paid''), requires = [need_amount, need_card],
                    accepts_message = (\<lambda>ks. False)\<rparr>),
         (''broken'', \<lparr>action = Some failing, requires = [],
                       accepts_message = (\<lambda>ks. False)\<rparr>)],
      get_state_for_intent = (\<lambda>i. if i = ''pay'' then Some ''billing.pay'' else None),
      matches_intent = (\<lambda>i. i = ''billing'')\<rparr>"

definition example_env :: env where
  "example_env =
     \<lparr>flows = [(''default'', default_flow), (''billing'', billing_flow)],
      chat_id = ''test_1'',
      interface_name = ''test'',
      error_message_text = ''Oh no! You broke me! :('',
      inactive_callbacks = [],
      debug = (\<lambda>c. Some (if entities c = [] then ''no entities'' else ''entities'')),
      record_start = [TextMessage ''Recording''],
      record_stop = [TextMessage ''Stopped'']\<rparr>"

definition empty_store :: store where
  "empty_store =
     \<lparr>dialog_version = None, session_state = Map.empty, session_context = Map.empty,
      session_interface = Map.empty, session_active = Map.empty, chat_session = Map.empty\<rparr>"

definition example_context :: Context where
  "example_context =
     \<lparr>counter = 3, entities = [],
      history = [(''default.root'', 1), (''billing.root'', 2), (''billing.collect_amount'', 3)]\<rparr>"

definition example_dialog :: dialog where
  "example_dialog =
     \<lparr>current_state_name = ''billing.collect_amount'', ctxt = Some example_context,
      recording = Some False, db = empty_store, sent = [], recorder = [], tasks = [],
      errlog = [], now = 4\<rparr>"

section \<open>Basic facts\<close>

lemmas example_defs =
  example_env_def example_dialog_def example_context_def empty_store_def
  default_flow_def billing_flow_def collect_amount_state_def need_amount_def need_card_def
  say_def failing_def

lemma split_once_None: "(split_once sep s = None) = (sep \<notin> set s)"
  by (induction s) (auto split: option.splits)

lemma get_flow_cong:
  "current_state_name d = current_state_name d' \<Longrightarrow> get_flow e d x = get_flow e d' x"
  by (simp add: get_flow_def)

lemma get_state_cong:
  "current_state_name d = current_state_name d' \<Longrightarrow> get_state e d x = get_state e d' x"
  unfolding get_state_def
  by (auto simp: get_flow_cong[of d d'] split: option.splits)

lemma resolve_name_dotted: "CHR ''.'' \<in> set (fst (resolve_name cur nm act))"
  by (auto simp: resolve_name_def Let_def split: option.splits if_splits prod.splits)

lemma resolve_dotted:
  "move_to_resolve e tgt d = Inr (n, a) \<Longrightarrow> CHR ''.'' \<in> set n"
  using resolve_name_dotted
  by (auto simp: move_to_resolve_def split: target.splits option.splits) (metis fst_conv)+

lemma resolve_nonempty:
  "move_to_resolve e tgt d = Inr (n, a) \<Longrightarrow> n \<noteq> []"
  using resolve_dotted by fastforce

lemma get_state_dotted:
  assumes "CHR ''.'' \<in> set n" and "CHR ''.'' \<in> set (current_state_name d)"
  shows "\<exists>r. get_state e d (Some n) = Inr r"
proof -
  from assms(1) have "n \<noteq> []" by auto
  moreover from assms(1) obtain fl sn where "split_once CHR ''.'' n = Some (fl, sn)"
    using split_once_None[of "CHR ''.''" n] by (cases "split_once CHR ''.'' n") auto
  moreover from assms(2) obtain fl' sn'
    where "split_once CHR ''.'' (current_state_name d) = Some (fl', sn')"
    using split_once_None[of "CHR ''.''" "current_state_name d"]
    by (cases "split_once CHR ''.'' (current_state_name d)") auto
  ultimately show ?thesis
    by (auto simp: get_state_def get_flow_def split: option.splits)
qed

text \<open>A call of \<^verbatim>\<open>move_to\<close> without \<^verbatim>\<open>save_identical\<close> that returns
  \<^verbatim>\<open>False\<close> has changed nothing.\<close>

lemma move_to_False_same:
  assumes "move_to e tgt ini False d = Returned False d'"
  shows "d' = d"
proof (cases "move_to_resolve e tgt d")
  case (Inl x)
  with assms show ?thesis by (simp add: move_to_def)
next
  case (Inr p)
  obtain n a where p: "p = (n, a)" by (cases p)
  from Inr p have "n \<noteq> []" using resolve_nonempty by blast
  with assms Inr p show ?thesis
    by (auto simp: move_to_def move_to_finish_def Let_def
             split: sum.splits option.splits if_splits outcome.splits)
qed

text \<open>What the helpers leave alone.\<close>

lemma post_responses_ctxt [simp]: "ctxt (final (post_responses ms d)) = ctxt d"
  by (induction ms arbitrary: d) (auto simp: Let_def split: option.splits)

lemma post_responses_current [simp]:
  "current_state_name (final (post_responses ms d)) = current_state_name d"
  by (induction ms arbitrary: d) (auto simp: Let_def split: option.splits)

lemma send_response_ctxt [simp]: "ctxt (final (send_response ms d)) = ctxt d"
  by (simp add: send_response_def)

lemma send_response_current [simp]:
  "current_state_name (final (send_response ms d)) = current_state_name d"
  by (simp add: send_response_def)

lemma save_state_ctxt [simp]: "ctxt (save_state e d) = ctxt d"
  by (simp add: save_state_def split: option.splits)

lemma save_state_current [simp]: "current_state_name (save_state e d) = current_state_name d"
  by (simp add: save_state_def split: option.splits)

lemma inactive_all_ctxt [simp]: "ctxt (final (inactive_all cbs d)) = ctxt d"
  by (induction cbs d rule: inactive_all.induct) (auto split: option.splits)

lemma inactive_all_current [simp]:
  "current_state_name (final (inactive_all cbs d)) = current_state_name d"
  by (induction cbs d rule: inactive_all.induct) (auto split: option.splits)

lemma test_record_message_frame:
  "ctxt (final (test_record_message e mt ents d)) = ctxt d \<and>
   current_state_name (final (test_record_message e mt ents d)) = current_state_name d"
proof (cases "ctxt d")
  case None
  then show ?thesis by (simp add: test_record_message_def)
next
  case (Some c)
  show ?thesis
  proof (cases "get_age c ''test_record''")
    case None
    with Some show ?thesis by (simp add: test_record_message_def)
  next
    case (Some p)
    obtain r a where p: "p = (r, a)" by (cases p)
    let ?ms = "(if r = ''start'' then record_start e
                          else if r = ''stop'' then record_stop e
                          else [TextMessage ''Use /test_record/start/ or /test_record/stop/''])"
    have "ctxt (final (send_response ?ms (d\<lparr>recording := Some False\<rparr>))) = ctxt d"
         "current_state_name (final (send_response ?ms (d\<lparr>recording := Some False\<rparr>))) = current_state_name d"
      by (simp_all only: send_response_ctxt send_response_current) simp_all
    with Some p \<open>ctxt d = Some c\<close> show ?thesis
      by (cases "send_response ?ms (d\<lparr>recording := Some False\<rparr>)")
         (auto simp: test_record_message_def Let_def)
  qed
qed

lemma move_to_enters:
  assumes "move_to_resolve e tgt d = Inr (n, a)"
    and "get_state e d (Some n) = Inr (Some st0)"
    and "n \<noteq> current_state_name d"
    and "ctxt d = Some c"
    and "recording d = Some r"
  shows "move_to e tgt False si d =
           move_to_finish e a n (move_to_try e (current_state_name d) n (entered n c r d))"
proof -
  from assms(1) have "n \<noteq> []" by (rule resolve_nonempty)
  with assms show ?thesis
    by (simp add: move_to_def entered_def Let_def)
qed

lemma check_requirements_find:
  "check_requirements st c = (get_first_requirement st c = None)"
  by (auto simp: check_requirements_def get_first_requirement_def list_all_iff find_None_iff)

lemma get_state_current:
  "n \<noteq> [] \<Longrightarrow> current_state_name d = n \<Longrightarrow> get_state e d None = get_state e d (Some n)"
  by (simp add: get_state_def)

lemma move_to_try_selects:
  assumes "n \<noteq> []" and "prev \<noteq> n" and "current_state_name d = n"
    and "get_state e d (Some n) = Inr (Some S)" and "ctxt d = Some c"
  shows "move_to_try e prev n d =
           (case get_first_requirement S c of
              Some rq \<Rightarrow> req_action rq d
            | None \<Rightarrow> (case action S of None \<Rightarrow> Returned () d | Some act \<Rightarrow> act d))"
  using assms get_state_current[of n d e]
  by (auto simp: move_to_try_def run_accept_def check_requirements_find split: option.splits)

lemma find_first_unmet:
  assumes "requires S = ms @ rq # rest" and "\<forall>m\<in>set ms. req_matches m c" and "\<not> req_matches rq c"
  shows "get_first_requirement S c = Some rq"
proof -
  have "find (\<lambda>r. \<not> req_matches r c) (ms @ rq # rest) = Some rq"
    using assms(2,3) by (induction ms) auto
  with assms(1) show ?thesis by (simp add: get_first_requirement_def)
qed

lemma find_all_met:
  assumes "\<forall>m\<in>set (requires S). req_matches m c"
  shows "get_first_requirement S c = None"
  using assms by (simp add: get_first_requirement_def find_None_iff)

lemma entered_simps [simp]:
  "current_state_name (entered n c r d) = n"
  "ctxt (entered n c r d) = Some (add_state c n (now d))"
  by (simp_all add: entered_def)

text \<open>Leaving the current state for a registered one runs what the check of the requirements selects, and
  then the lines after the \<^verbatim>\<open>try\<close>.\<close>

lemma move_to_selects:
  assumes "move_to_resolve e tgt d = Inr (n, a)"
    and "get_state e d (Some n) = Inr (Some S0)"
    and "n \<noteq> current_state_name d"
    and "ctxt d = Some c"
    and "recording d = Some r"
    and "get_state e (d\<lparr>current_state_name := n\<rparr>) (Some n) = Inr (Some S)"
  shows "move_to e tgt False si d =
           move_to_finish e a n
             (case get_first_requirement S (add_state c n (now d)) of
                Some rq \<Rightarrow> req_action rq (entered n c r d)
              | None \<Rightarrow>
                  (case action S of
                     None \<Rightarrow> Returned () (entered n c r d)
                   | Some act \<Rightarrow> act (entered n c r d)))"
proof -
  have ne: "n \<noteq> []" using assms(1) by (rule resolve_nonempty)
  have "get_state e (entered n c r d) (Some n)
          = get_state e (d\<lparr>current_state_name := n\<rparr>) (Some n)"
    by (rule get_state_cong) simp
  with assms(6) have g: "get_state e (entered n c r d) (Some n) = Inr (Some S)" by simp
  have sel: "move_to_try e (current_state_name d) n (entered n c r d) =
           (case get_first_requirement S (add_state c n (now d)) of
              Some rq \<Rightarrow> req_action rq (entered n c r d)
            | None \<Rightarrow> (case action S of None \<Rightarrow> Returned () (entered n c r d)
                       | Some act \<Rightarrow> act (entered n c r d)))"
    using assms(3) by (intro move_to_try_selects[OF ne _ _ g]) auto
  have "move_to e tgt False si d =
           move_to_finish e a n (move_to_try e (current_state_name d) n (entered n c r d))"
    using assms(1-5) by (rule move_to_enters)
  with sel show ?thesis by simp
qed

lemma move_to_except_sends:
  assumes "recording d = Some r"
  shows "move_to_except e act n x d =
     Returned ()
       (d\<lparr>errlog := errlog d @
            [LogError ''*****************************************************'',
             LogError (''Exception occurred while running action '' @ show_opt act @
                       '' of state '' @ n),
             LogError (''Chat id: '' @ chat_id e)] @
            context_snapshot e d @
            [LogException ''Exception follows'' x],
          sent := sent d @ [PostMessage (TextMessage (error_message_text e))],
          recorder := (if r then recorder d @ [RecBotMessage (TextMessage (error_message_text e))]
                       else recorder d)\<rparr>)"
  using assms by (simp add: move_to_except_def send_response_def Let_def)

lemma get_state_current_Some:
  assumes "get_state e d None = Inr (Some st)"
  shows "get_state e d (Some (current_state_name d)) = Inr (Some st)"
proof (cases "current_state_name d = []")
  case True
  with assms show ?thesis by (simp add: get_state_def)
next
  case False
  with assms show ?thesis using get_state_current[of "current_state_name d" d e] by simp
qed

lemma move_to_identical:
  assumes "move_to_resolve e tgt d = Inr (current_state_name d, a)"
  shows "move_to e tgt ini False d = Returned False d"
proof -
  have dot: "CHR ''.'' \<in> set (current_state_name d)"
    using assms by (rule resolve_dotted)
  then obtain r where "get_state e d (Some (current_state_name d)) = Inr r"
    using get_state_dotted by blast
  with assms show ?thesis
    by (cases r) (simp_all add: move_to_def)
qed

lemma check_intent_False_frame:
  assumes "check_intent_transition e d = Returned False d'"
  shows "ctxt d' = ctxt d \<and> current_state_name d' = current_state_name d"
proof (cases "ctxt d")
  case None
  with assms show ?thesis by (simp add: check_intent_transition_def)
next
  case (Some c)
  show ?thesis
  proof (cases "truthy (intent_get c)")
    case False
    with assms Some show ?thesis by (simp add: check_intent_transition_def)
  next
    case True
    show ?thesis
    proof (cases "get_flow e d None")
      case (Inl x)
      with assms Some True show ?thesis by (simp add: check_intent_transition_def)
    next
      case (Inr fo)
      show ?thesis
      proof (cases fo)
        case None
        with assms Some True Inr show ?thesis by (simp add: check_intent_transition_def)
      next
        case (Some fl)
        show ?thesis
        proof (cases "truthy (intent_target e fl (or_else (intent_get c) []))")
          case False
          with assms \<open>ctxt d = Some c\<close> True Inr Some show ?thesis
            by (auto simp: check_intent_transition_def Let_def)
        next
          case t: True
          with assms \<open>ctxt d = Some c\<close> True Inr Some
          have "move_to e (TName (or_else (intent_target e fl (or_else (intent_get c) [])) [])) False False d = Returned False d'"
            by (simp add: check_intent_transition_def Let_def)
          then have "d' = d" by (rule move_to_False_same)
          then show ?thesis by simp
        qed
      qed
    qed
  qed
qed

lemma check_state_False_same:
  assumes "check_state_transition e d = Returned False d'"
  shows "d' = d"
  using assms move_to_False_same
  by (cases "ctxt d") (auto simp: check_state_transition_def)

lemma history_of_save_state [simp]: "history_of (save_state e d) = history_of d"
  by (simp add: history_of_def)

lemma save_inactivity_callback_ctxt [simp]:
  "ctxt (final (save_inactivity_callback e d)) = ctxt d"
  by (simp add: save_inactivity_callback_def)

lemma process_begin_ctxt:
  assumes "mt \<in> set [''message'', ''postback'', ''schedule'']" and "ctxt d = Some c"
  shows "ctxt (final (process_begin e mt ents d))
           = Some (snd (add_entities (c\<lparr>counter := counter c + 1\<rparr>) ents))"
proof -
  obtain ents1 c2 where ae: "add_entities (c\<lparr>counter := counter c + 1\<rparr>) ents = (ents1, c2)"
    by (cases "add_entities (c\<lparr>counter := counter c + 1\<rparr>) ents")
  let ?d1 = "d\<lparr>sent := sent d @ [ProcessingStart], ctxt := Some c2\<rparr>"
  let ?t = "test_record_message e mt ents1 ?d1"
  have t: "ctxt (final ?t) = Some c2"
    using test_record_message_frame[of e mt ents1 ?d1] by simp
  have "ctxt (final (process_begin e mt ents d)) = Some c2"
  proof (cases ?t)
    case (Raised x d2)
    with assms t ae show ?thesis
      by (simp add: process_begin_def Let_def)
  next
    case (Returned b d2)
    show ?thesis
    proof (cases b)
      case True
      with assms t ae Returned show ?thesis
        by (simp add: process_begin_def Let_def)
    next
      case False
      have "ctxt (final (save_inactivity_callback e d2)) = ctxt d2" by simp
      with False assms t ae Returned show ?thesis
        by (cases "save_inactivity_callback e d2") (simp_all add: process_begin_def Let_def)
    qed
  qed
  with ae show ?thesis by simp
qed

lemma process_begin_history:
  "history_of (final (process_begin e mt ents d)) = history_of d"
proof (cases "mt \<in> set [''message'', ''postback'', ''schedule'']")
  case False
  then show ?thesis by (simp add: process_begin_def history_of_def Let_def)
next
  case True
  show ?thesis
  proof (cases "ctxt d")
    case None
    with True show ?thesis by (simp add: process_begin_def history_of_def Let_def)
  next
    case (Some c)
    from process_begin_ctxt[OF True Some, of e ents] Some show ?thesis
      by (simp add: history_of_def add_entities_def)
  qed
qed

lemmas model_defs =
  process_begin_def test_record_message_def save_inactivity_callback_def
  check_state_transition_def check_intent_transition_def move_to_def move_to_resolve_def
  resolve_name_def get_state_def get_flow_def add_entities_def get_age_def context_get_def
  intent_get_def

lemma run_accept_action:
  assumes "get_state e d None = Inr (Some st)"
  shows "run_accept e si d = (case action st of None \<Rightarrow> Returned () d | Some act \<Rightarrow> act d)"
  using assms by (simp add: run_accept_def)

lemma move_to_identical_any:
  assumes "move_to_resolve e tgt d = Inr (current_state_name d, a)"
    and "get_state e d None = Inr (Some st)"
  shows "move_to e tgt ini si d =
           (if \<not> ini \<and> si
            then (case ctxt d of
                    None \<Rightarrow> Raised AttributeError d
                  | Some c \<Rightarrow>
                      Returned False
                        (d\<lparr>ctxt := Some (add_state c (current_state_name d) (now d))\<rparr>))
            else Returned False d)"
  using assms get_state_current_Some[OF assms(2)]
  by (auto simp: move_to_def split: option.splits)

lemma resolve_name_plain:
  assumes "CHR ''.'' \<in> set s" and "CHR '':'' \<notin> set s"
  shows "resolve_name cur (Some s) act = (s, act)"
proof -
  from assms(1) have "s \<noteq> []" by auto
  with assms show ?thesis by (simp add: resolve_name_def)
qed

lemma resolve_name_current:
  assumes "CHR ''.'' \<in> set cur" and "CHR '':'' \<notin> set cur"
  shows "resolve_name cur None act = (cur, act)"
  using assms by (simp add: resolve_name_def)

lemma version_nonempty [simp]: "version \<noteq> []"
  by (simp add: version_def)

lemma init_dialog_simps [simp]:
  "current_state_name (init_dialog s t) = ''default.root''"
  "ctxt (init_dialog s t) = None"
  by (simp_all add: init_dialog_def)

lemma move_to_initializing:
  assumes "move_to_resolve e tgt d = Inr (n, a)"
    and "CHR ''.'' \<in> set (current_state_name d)"
    and "ctxt d = None"
  shows "move_to e tgt True si d =
           (case get_state e d (Some n) of
              Inr (Some st) \<Rightarrow>
                if n = current_state_name d then Returned False d
                else Returned True (d\<lparr>current_state_name := n\<rparr>)
            | _ \<Rightarrow> Returned False d)"
proof -
  have ne: "n \<noteq> []" using assms(1) by (rule resolve_nonempty)
  have "CHR ''.'' \<in> set n" using assms(1) by (rule resolve_dotted)
  then obtain r where r: "get_state e d (Some n) = Inr r"
    using get_state_dotted[OF _ assms(2)] by blast
  show ?thesis
    using assms(1,3) ne r
    by (cases r) (simp_all add: move_to_def Let_def save_state_def)
qed

lemma get_state_mem:
  assumes "get_state e d x = Inr (Some st)"
  shows "\<exists>fl \<in> set (map snd (flows e)). st \<in> set (map snd (states fl))"
proof -
  from assms obtain fn sn fl where "map_of (flows e) fn = Some fl" "map_of (states fl) sn = Some st"
    by (auto simp: get_state_def get_flow_def split: option.splits if_splits sum.splits)
  then have "(fn, fl) \<in> set (flows e)" "(sn, st) \<in> set (states fl)"
    by (auto dest: map_of_SomeD)
  then show ?thesis by force
qed

lemma first_requirement_mem:
  "get_first_requirement st c = Some rq \<Longrightarrow> rq \<in> set (requires st)"
  by (auto simp: get_first_requirement_def find_Some_iff)

lemma keep_action:
  assumes "actions_keep_counter e" and "get_state e d x = Inr (Some st)" and "action st = Some act"
  shows "counter_of (final (act d')) = counter_of d'"
  using assms get_state_mem[OF assms(2)] unfolding actions_keep_counter_def by blast

lemma keep_requirement:
  assumes "actions_keep_counter e" and "get_state e d x = Inr (Some st)"
    and "get_first_requirement st c = Some rq"
  shows "counter_of (final (req_action rq d')) = counter_of d'"
  using assms get_state_mem[OF assms(2)] first_requirement_mem[OF assms(3)]
  unfolding actions_keep_counter_def by blast

lemma run_accept_counter:
  assumes "actions_keep_counter e"
  shows "counter_of (final (run_accept e b d)) = counter_of d"
proof (cases "get_state e d None")
  case (Inl x)
  then show ?thesis by (simp add: run_accept_def)
next
  case (Inr so)
  show ?thesis
  proof (cases so)
    case None
    with Inr show ?thesis by (simp add: run_accept_def)
  next
    case (Some st)
    show ?thesis
    proof (cases "action st")
      case None
      with Inr Some show ?thesis by (simp add: run_accept_def)
    next
      case a: (Some act)
      from keep_action[OF assms _ a, of d None d] Inr Some a show ?thesis
        by (simp add: run_accept_def)
    qed
  qed
qed

lemma move_to_try_counter:
  assumes "actions_keep_counter e"
  shows "counter_of (final (move_to_try e p n d)) = counter_of d"
proof (cases "get_state e d (Some n)")
  case (Inl x)
  then show ?thesis by (simp add: move_to_try_def)
next
  case (Inr so)
  show ?thesis
  proof (cases so)
    case None
    with Inr show ?thesis by (simp add: move_to_try_def)
  next
    case (Some st)
    show ?thesis
    proof (cases "ctxt d")
      case None
      with Inr Some show ?thesis by (simp add: move_to_try_def)
    next
      case c: (Some c)
      show ?thesis
      proof (cases "get_first_requirement st c")
        case None
        with Inr Some c run_accept_counter[OF assms, of False d] show ?thesis
          by (simp add: move_to_try_def check_requirements_find)
      next
        case r: (Some rq)
        from keep_requirement[OF assms _ r, of d "Some n" d] Inr Some c r show ?thesis
          by (simp add: move_to_try_def check_requirements_find)
      qed
    qed
  qed
qed

lemma move_to_finish_counter:
  "counter_of (final (move_to_finish e a n out)) = counter_of (final out)"
proof (cases out)
  case (Returned u d5)
  then show ?thesis by (simp add: move_to_finish_def counter_of_def)
next
  case (Raised x d5)
  let ?h = "move_to_except e a n x d5"
  have "ctxt (final ?h) = ctxt d5"
    unfolding move_to_except_def by (simp only: send_response_ctxt) simp
  with Raised show ?thesis
    by (cases ?h) (simp_all add: move_to_finish_def counter_of_def)
qed

lemma move_to_counter:
  assumes "actions_keep_counter e"
  shows "counter_of (final (move_to e tgt ini si d)) = counter_of d"
proof (cases "move_to_resolve e tgt d")
  case (Inl x)
  then show ?thesis by (simp add: move_to_def)
next
  case (Inr p)
  obtain n a where p: "p = (n, a)" by (cases p)
  note r = Inr[unfolded p]
  show ?thesis
  proof (cases "get_state e d (Some n)")
    case (Inl x)
    with r show ?thesis by (simp add: move_to_def)
  next
    case g: (Inr so)
    show ?thesis
    proof (cases so)
      case None
      with r g show ?thesis by (simp add: move_to_def)
    next
      case (Some S0)
      note g' = g[unfolded Some]
      show ?thesis
      proof (cases "ctxt d")
        case None
        with r g' show ?thesis
          by (simp add: move_to_def Let_def counter_of_def)
      next
        case c: (Some c)
        show ?thesis
        proof (cases "n = current_state_name d")
          case True
          with r g' c show ?thesis
            by (simp add: move_to_def Let_def counter_of_def add_state_def)
        next
          case False
          have ne: "n \<noteq> []" using r by (rule resolve_nonempty)
          show ?thesis
          proof (cases ini)
            case True
            with r g' c False ne show ?thesis
              by (simp add: move_to_def Let_def counter_of_def)
          next
            case ni: False
            show ?thesis
            proof (cases "recording d")
              case None
              with r g' c False ne ni show ?thesis
                by (simp add: move_to_def Let_def counter_of_def add_state_def)
            next
              case (Some rc)
              have "move_to e tgt False si d =
                      move_to_finish e a n
                        (move_to_try e (current_state_name d) n (entered n c rc d))"
                using r g' False c Some by (rule move_to_enters)
              then have "counter_of (final (move_to e tgt False si d))
                           = counter_of (entered n c rc d)"
                by (simp add: move_to_finish_counter move_to_try_counter[OF assms])
              with ni c show ?thesis
                by (simp add: counter_of_def add_state_def)
            qed
          qed
        qed
      qed
    qed
  qed
qed


lemma check_state_transition_counter:
  assumes "actions_keep_counter e"
  shows "counter_of (final (check_state_transition e d)) = counter_of d"
  using move_to_counter[OF assms]
  by (cases "ctxt d") (simp_all add: check_state_transition_def)

lemma check_intent_transition_counter:
  assumes "actions_keep_counter e"
  shows "counter_of (final (check_intent_transition e d)) = counter_of d"
proof (cases "ctxt d")
  case None
  then show ?thesis by (simp add: check_intent_transition_def)
next
  case (Some c)
  show ?thesis
  proof (cases "get_flow e d None")
    case (Inl x)
    with Some show ?thesis by (simp add: check_intent_transition_def)
  next
    case (Inr fo)
    show ?thesis
    proof (cases fo)
      case None
      with Some Inr show ?thesis by (simp add: check_intent_transition_def)
    next
      case f: (Some fl)
      let ?t = "intent_target e fl (or_else (intent_get c) [])"
      show ?thesis
      proof (cases "truthy (intent_get c) \<and> truthy ?t")
        case True
        then have "check_intent_transition e d = move_to e (TName (or_else ?t [])) False False d"
          using Some Inr f by (simp add: check_intent_transition_def Let_def)
        with move_to_counter[OF assms] show ?thesis by simp
      next
        case False
        then show ?thesis
          using Some Inr f by (auto simp: check_intent_transition_def Let_def counter_of_def)
      qed
    qed
  qed
qed

lemma move_by_entities_counter:
  assumes "actions_keep_counter e"
  shows "counter_of (final (move_by_entities e ents d)) = counter_of d"
  using move_to_counter[OF assms, of "TName ''default.root''" False False d]
  by (cases "move_to e (TName ''default.root'') False False d")
     (simp_all add: move_by_entities_def)

lemma counter_of_save_state [simp]: "counter_of (save_state e d) = counter_of d"
  by (simp add: counter_of_def)

lemma process_transitions_counter:
  assumes "actions_keep_counter e"
  shows "counter_of (final (process_transitions e ents d)) = counter_of d"
proof (cases "check_state_transition e d")
  case (Raised x d1)
  with check_state_transition_counter[OF assms, of d] show ?thesis
    by (simp add: process_transitions_def)
next
  case (Returned b d1)
  with check_state_transition_counter[OF assms, of d]
  have c1: "counter_of d1 = counter_of d" by simp
  show ?thesis
  proof (cases b)
    case True
    with Returned c1 show ?thesis by (simp add: process_transitions_def)
  next
    case False
    with Returned have s: "check_state_transition e d = Returned False d1" by simp
    show ?thesis
    proof (cases "check_intent_transition e d1")
      case (Raised x d2)
      with check_intent_transition_counter[OF assms, of d1] s c1 show ?thesis
        by (simp add: process_transitions_def)
    next
      case i: (Returned b2 d2)
      with check_intent_transition_counter[OF assms, of d1] c1
      have c2: "counter_of d2 = counter_of d" by simp
      show ?thesis
      proof (cases b2)
        case True
        with s i c2 show ?thesis by (simp add: process_transitions_def)
      next
        case b2: False
        with i have i': "check_intent_transition e d1 = Returned False d2" by simp
        show ?thesis
        proof (cases "get_state e d2 None")
          case (Inl x)
          with s i' c2 show ?thesis by (simp add: process_transitions_def)
        next
          case (Inr so)
          show ?thesis
          proof (cases so)
            case None
            with s i' c2 Inr show ?thesis by (simp add: process_transitions_def)
          next
            case (Some st)
            show ?thesis
            proof (cases "accepts_message st (map fst ents)")
              case True
              with s i' c2 Inr Some run_accept_counter[OF assms, of True d2] show ?thesis
                by (cases "run_accept e True d2") (simp_all add: process_transitions_def)
            next
              case False
              with s i' c2 Inr Some move_by_entities_counter[OF assms, of ents d2] show ?thesis
                by (cases "move_by_entities e ents d2") (simp_all add: process_transitions_def)
            qed
          qed
        qed
      qed
    qed
  qed
qed

lemma process_begin_counter:
  assumes "mt \<in> set [''message'', ''postback'', ''schedule'']" and "ctxt d = Some c"
  shows "counter_of (final (process_begin e mt ents d)) = Some (counter c + 1)"
  using process_begin_ctxt[OF assms, of e ents]
  by (simp add: counter_of_def add_entities_def)

lemma check_intent_False_errlog:
  assumes "check_intent_transition e d = Returned False d'"
  shows "d' = d\<lparr>errlog := errlog d'\<rparr>"
proof (cases "ctxt d")
  case None
  with assms show ?thesis by (simp add: check_intent_transition_def)
next
  case (Some c)
  show ?thesis
  proof (cases "get_flow e d None")
    case (Inl x)
    with assms Some show ?thesis
      by (auto simp: check_intent_transition_def split: if_splits)
  next
    case (Inr fo)
    show ?thesis
    proof (cases fo)
      case None
      with assms Some Inr show ?thesis
        by (auto simp: check_intent_transition_def split: if_splits)
    next
      case f: (Some fl)
      let ?t = "intent_target e fl (or_else (intent_get c) [])"
      show ?thesis
      proof (cases "truthy (intent_get c) \<and> truthy ?t")
        case True
        then have "check_intent_transition e d = move_to e (TName (or_else ?t [])) False False d"
          using Some Inr f by (simp add: check_intent_transition_def Let_def)
        with assms have "d' = d" using move_to_False_same by simp
        then show ?thesis by simp
      next
        case False
        then show ?thesis
          using assms Some Inr f
          by (auto simp: check_intent_transition_def Let_def split: if_splits)
      qed
    qed
  qed
qed

lemma default_root_resolves:
  "move_to_resolve e (TName ''default.root'') d = Inr (''default.root'', Some ''init'')"
  by (simp add: move_to_resolve_def resolve_name_def)

lemma get_state_default_root:
  "get_state e d (Some ''default.root'') = get_state e d' (Some ''default.root'')"
  by (simp add: get_state_def get_flow_def)

lemmas run_defs =
  process_def process_transitions_def move_by_entities_def move_to_finish_def move_to_try_def
  move_to_except_def run_accept_def check_requirements_def get_first_requirement_def
  save_state_def send_response_def add_state_def Let_def

lemma move_to_finish_not_False:
  "move_to_finish e a n out \<noteq> Returned False d'"
  by (auto simp: move_to_finish_def split: outcome.splits)

lemma move_to_moves_or_raises:
  assumes "move_to_resolve e tgt d = Inr (n, a)"
    and "get_state e d (Some n) = Inr (Some S)"
    and "n \<noteq> current_state_name d"
  shows "move_to e tgt False si d \<noteq> Returned False d'"
proof (cases "ctxt d")
  case None
  with assms show ?thesis by (simp add: move_to_def)
next
  case (Some c)
  have ne: "n \<noteq> []" using assms(1) by (rule resolve_nonempty)
  show ?thesis
  proof (cases "recording d")
    case None
    with assms Some ne show ?thesis by (simp add: move_to_def Let_def)
  next
    case r: (Some r)
    from move_to_enters[OF assms Some r, of si] move_to_finish_not_False
    show ?thesis by simp
  qed
qed

lemma history_lookup_from_end:
  assumes "2 \<le> N" and "N \<le> int (length (history c))"
  shows "get_history_state c (N - 1) = Some (rev (butlast (history c)) ! nat (N - 2))"
proof -
  let ?h = "history c"
  have l: "nat (N - 2) < length (butlast ?h)" using assms by simp
  have "rev (butlast ?h) ! nat (N - 2) = butlast ?h ! (length (butlast ?h) - Suc (nat (N - 2)))"
    using l by (rule rev_nth)
  also have "\<dots> = ?h ! (length (butlast ?h) - Suc (nat (N - 2)))"
    using l by (intro nth_butlast) simp
  also have "length (butlast ?h) - Suc (nat (N - 2)) = length ?h - 1 - nat (N - 1)"
    using assms by (simp add: nat_diff_distrib) 
  finally have "rev (butlast ?h) ! nat (N - 2) = ?h ! (length ?h - 1 - nat (N - 1))" .
  with assms show ?thesis by (simp add: get_history_state_def)
qed

lemma history_lookup_nothing:
  assumes "N < 2 \<or> int (length (history c)) < N"
  shows "get_history_state c (N - 1) = None"
  using assms by (auto simp: get_history_state_def)

text \<open>The rules of lines 110-118, one after the other.\<close>

lemma rules_cascade:
  assumes "ctxt d = Some c"
  shows
    "(context_get c ''_state'' 0 = Some s \<and> move_to_resolve e (TName s) d = Inr (n, a) \<and>
      get_state e d (Some n) = Inr (Some S) \<and> n \<noteq> current_state_name d \<longrightarrow>
        process_transitions e ents d =
          (case move_to e (TName s) False False d of
             Raised x d1 \<Rightarrow> Raised x d1
           | Returned u d1 \<Rightarrow> Returned () d1) \<and>
        (recording d = Some r \<longrightarrow>
           move_to e (TName s) False False d =
             move_to_finish e a n
               (move_to_try e (current_state_name d) n (entered n c r d)))) \<and>
     (context_get c ''_state'' 0 = Some s \<and> move_to_resolve e (TName s) d = Inr (n, a) \<and>
      (get_state e d (Some n) = Inr None \<or> n = current_state_name d) \<longrightarrow>
        check_state_transition e d = Returned False d) \<and>
     (context_get c ''_state'' 0 = None \<and> CHR ''.'' \<in> set (current_state_name d) \<and>
      CHR '':'' \<notin> set (current_state_name d) \<longrightarrow>
        check_state_transition e d = Returned False d) \<and>
     (check_state_transition e d = Returned True d1 \<longrightarrow>
        process_transitions e ents d = Returned () d1) \<and>
     (check_state_transition e d = Returned False d1 \<longrightarrow>
        d1 = d \<and>
        (check_intent_transition e d = Returned True d2 \<longrightarrow>
           process_transitions e ents d = Returned () d2) \<and>
        (check_intent_transition e d = Returned False d2 \<and>
         get_state e d None = Inr (Some st) \<longrightarrow>
           d2 = d\<lparr>errlog := errlog d2\<rparr> \<and>
           process_transitions e ents d =
             (if accepts_message st (map fst ents)
              then (case run_accept e True d2 of
                      Raised x d3 \<Rightarrow> Raised x d3
                    | Returned u d3 \<Rightarrow> Returned () (save_state e d3))
              else (case move_by_entities e ents d2 of
                      Raised x d3 \<Rightarrow> Raised x d3
                    | Returned u d3 \<Rightarrow> Returned () (save_state e d3)))))"
proof (intro conjI impI)
  assume h: "context_get c ''_state'' 0 = Some s \<and> move_to_resolve e (TName s) d = Inr (n, a) \<and>
      get_state e d (Some n) = Inr (Some S) \<and> n \<noteq> current_state_name d"
  then have cs: "check_state_transition e d = move_to e (TName s) False False d"
    using assms by (simp add: check_state_transition_def)
  from h have nf: "\<And>d'. move_to e (TName s) False False d \<noteq> Returned False d'"
    using move_to_moves_or_raises by blast
  show "process_transitions e ents d =
          (case move_to e (TName s) False False d of
             Raised x d1 \<Rightarrow> Raised x d1
           | Returned u d1 \<Rightarrow> Returned () d1)"
  proof (cases "move_to e (TName s) False False d")
    case (Raised x d')
    with cs show ?thesis by (simp add: process_transitions_def)
  next
    case (Returned b d')
    with nf have "b" by (cases b) auto
    with cs Returned show ?thesis by (simp add: process_transitions_def)
  qed
  {
    assume r: "recording d = Some r"
    from h have 1: "move_to_resolve e (TName s) d = Inr (n, a)"
      and 2: "get_state e d (Some n) = Inr (Some S)"
      and 3: "n \<noteq> current_state_name d" by simp_all
    show "move_to e (TName s) False False d =
             move_to_finish e a n
               (move_to_try e (current_state_name d) n (entered n c r d))"
      using 1 2 3 assms r by (rule move_to_enters)
  }
next
  assume h: "context_get c ''_state'' 0 = Some s \<and> move_to_resolve e (TName s) d = Inr (n, a) \<and>
      (get_state e d (Some n) = Inr None \<or> n = current_state_name d)"
  then have cs: "check_state_transition e d = move_to e (TName s) False False d"
    using assms by (simp add: check_state_transition_def)
  have "move_to e (TName s) False False d = Returned False d"
  proof (cases "n = current_state_name d")
    case True
    with h have "move_to_resolve e (TName s) d = Inr (current_state_name d, a)" by simp
    then show ?thesis by (rule move_to_identical)
  next
    case False
    with h show ?thesis by (simp add: move_to_def)
  qed
  with cs show "check_state_transition e d = Returned False d" by simp
next
  assume h: "context_get c ''_state'' 0 = None \<and> CHR ''.'' \<in> set (current_state_name d) \<and>
      CHR '':'' \<notin> set (current_state_name d)"
  then have cs: "check_state_transition e d = move_to e TNone False False d"
    using assms by (simp add: check_state_transition_def)
  from h have "move_to_resolve e TNone d = Inr (current_state_name d, Some ''init'')"
    by (simp add: move_to_resolve_def resolve_name_current)
  then have "move_to e TNone False False d = Returned False d"
    by (rule move_to_identical)
  with cs show "check_state_transition e d = Returned False d" by simp
next
  assume "check_state_transition e d = Returned True d1"
  then show "process_transitions e ents d = Returned () d1"
    by (simp add: process_transitions_def)
next
  assume s: "check_state_transition e d = Returned False d1"
  then show e1: "d1 = d" by (rule check_state_False_same)
  {
    assume "check_intent_transition e d = Returned True d2"
    with s e1 show "process_transitions e ents d = Returned () d2"
      by (simp add: process_transitions_def)
  }
  {
    assume h: "check_intent_transition e d = Returned False d2 \<and>
         get_state e d None = Inr (Some st)"
    then have i: "check_intent_transition e d = Returned False d2"
      and g: "get_state e d None = Inr (Some st)" by simp_all
    from i show "d2 = d\<lparr>errlog := errlog d2\<rparr>" by (rule check_intent_False_errlog)
    from i have "current_state_name d2 = current_state_name d"
      using check_intent_False_frame by blast
    with g have g2: "get_state e d2 None = Inr (Some st)"
      using get_state_cong[of d2 d e None] by simp
    from s e1 i g2 show "process_transitions e ents d =
             (if accepts_message st (map fst ents)
              then (case run_accept e True d2 of
                      Raised x d3 \<Rightarrow> Raised x d3
                    | Returned u d3 \<Rightarrow> Returned () (save_state e d3))
              else (case move_by_entities e ents d2 of
                      Raised x d3 \<Rightarrow> Raised x d3
                    | Returned u d3 \<Rightarrow> Returned () (save_state e d3)))"
      by (simp add: process_transitions_def)
  }
qed

section \<open>A target that is not in the registry\<close>

text \<open>
  C6. When the name that the argument of \<^verbatim>\<open>move_to\<close> resolves to is not a state of
  the flow registry, \<^verbatim>\<open>move_to\<close> returns \<^verbatim>\<open>False\<close> and the dialog is the one it was
  called on: the pointer to the current state, the history and everything else are
  unchanged, so no action has run, whatever \<^verbatim>\<open>initializing\<close> and
  \<^verbatim>\<open>save_identical\<close> are.
\<close>

theorem move_to_missing_state:
  assumes "move_to_resolve e tgt d = Inr (n, a)"
    and "get_state e d (Some n) = Inr None"
  shows "move_to e tgt initializing save_identical d = Returned False d"
  using assms by (simp add: move_to_def)

theorem move_to_missing_state_witness:
  "move_to_resolve example_env (TName ''billing.nowhere'') example_dialog
     = Inr (''billing.nowhere'', Some ''init'') \<and>
   get_state example_env example_dialog (Some ''billing.nowhere'') = Inr None \<and>
   move_to example_env (TName ''billing.nowhere'') False True example_dialog
     = Returned False example_dialog"
proof -
  have r: "move_to_resolve example_env (TName ''billing.nowhere'') example_dialog
             = Inr (''billing.nowhere'', Some ''init'')"
    by (simp add: move_to_resolve_def resolve_name_def example_defs)
  have g: "get_state example_env example_dialog (Some ''billing.nowhere'') = Inr None"
    by (simp add: get_state_def get_flow_def example_defs)
  from r g move_to_missing_state [OF r g, of False True] show ?thesis by simp
qed

section \<open>Requirements before the action\<close>

text \<open>
  C4, as amended. Let \<^verbatim>\<open>move_to\<close> (not initializing) leave the current state for a
  registered state \<open>S\<close>, the requirements being checked on the context that already
  holds the new history entry. If \<open>rq\<close> is the first requirement of \<open>S\<close>, in declared
  order, that the context does not meet (all the requirements \<open>ms\<close> before it are met),
  then what that transition runs is the action of \<open>rq\<close> and nothing else: the result of
  \<^verbatim>\<open>move_to\<close> is made from the outcome of that action alone, and the action of \<open>S\<close>
  does not occur in it. If all the requirements of \<open>S\<close> are met, what runs is the action
  of \<open>S\<close> (nothing, when \<open>S\<close> has no action). The requirements are checked on such a
  transition only: once \<open>S\<close> is the current state, \<^verbatim>\<open>run_accept\<close> runs the action of
  \<open>S\<close> whatever its requirements are, and a \<^verbatim>\<open>move_to\<close> whose target is \<open>S\<close> itself
  returns \<^verbatim>\<open>False\<close> on the unchanged dialog.

  The claim as stated, that the action of \<open>S\<close> is never executed until all the
  requirements of \<open>S\<close> are satisfied, fails on the example registry: the transition from
  \<^verbatim>\<open>billing.root\<close> into \<^verbatim>\<open>billing.collect_amount\<close>, whose requirement of a card is
  unmet, runs the remediation action; the next message, which brings an amount that the
  state accepts, runs the own action of the state in place, the requirement being still
  unmet.
\<close>

theorem first_unmet_requirement_runs:
  assumes "move_to_resolve e tgt d = Inr (n, a)"
    and "get_state e d (Some n) = Inr (Some S0)"
    and "n \<noteq> current_state_name d"
    and "ctxt d = Some c"
    and "recording d = Some r"
    and "get_state e (d\<lparr>current_state_name := n\<rparr>) (Some n) = Inr (Some S)"
  shows
    "(requires S = ms @ rq # rest \<and>
      (\<forall>m\<in>set ms. req_matches m (add_state c n (now d))) \<and>
      \<not> req_matches rq (add_state c n (now d)) \<longrightarrow>
        move_to e tgt False si d = move_to_finish e a n (req_action rq (entered n c r d))) \<and>
     ((\<forall>m\<in>set (requires S). req_matches m (add_state c n (now d))) \<longrightarrow>
        move_to e tgt False si d =
          move_to_finish e a n
            (case action S of
               None \<Rightarrow> Returned () (entered n c r d)
             | Some act \<Rightarrow> act (entered n c r d))) \<and>
     (get_state e d' None = Inr (Some S') \<longrightarrow>
        run_accept e si' d' =
          (case action S' of None \<Rightarrow> Returned () d' | Some act \<Rightarrow> act d')) \<and>
     (move_to_resolve e tgt' d' = Inr (current_state_name d', a') \<longrightarrow>
        move_to e tgt' False False d' = Returned False d')"
proof -
  have 1: "get_state e d' None = Inr (Some S') \<longrightarrow>
        run_accept e si' d' =
          (case action S' of None \<Rightarrow> Returned () d' | Some act \<Rightarrow> act d')"
    using run_accept_action by blast
  have 2: "move_to_resolve e tgt' d' = Inr (current_state_name d', a') \<longrightarrow>
        move_to e tgt' False False d' = Returned False d'"
    using move_to_identical by blast
  show ?thesis
    using move_to_selects[OF assms, of si]
      find_first_unmet[of S ms rq rest "add_state c n (now d)"]
      find_all_met[of S "add_state c n (now d)"] 1 2
    by auto
qed

theorem own_action_before_requirements_counterexample:
  "requires collect_amount_state = [need_card] \<and>
   action collect_amount_state = Some (say ''Noted'') \<and>
   sent (final (move_to example_env (TName ''collect_amount'') False False
                  (example_dialog\<lparr>current_state_name := ''billing.root''\<rparr>)))
     = [StateChange ''billing.collect_amount'', PostMessage (TextMessage ''Which card?'')] \<and>
   current_state_name
     (final (move_to example_env (TName ''collect_amount'') False False
               (example_dialog\<lparr>current_state_name := ''billing.root''\<rparr>)))
     = ''billing.collect_amount'' \<and>
   sent (final (process example_env ''message'' [(''amount'', ''42'')]
                  (final (move_to example_env (TName ''collect_amount'') False False
                            (example_dialog\<lparr>current_state_name := ''billing.root''\<rparr>)))))
     = [StateChange ''billing.collect_amount'', PostMessage (TextMessage ''Which card?''),
        ProcessingStart, PostMessage (TextMessage ''Noted''), ProcessingEnd] \<and>
   map_option (check_requirements collect_amount_state)
     (ctxt (final (process example_env ''message'' [(''amount'', ''42'')]
                     (final (move_to example_env (TName ''collect_amount'') False False
                               (example_dialog\<lparr>current_state_name := ''billing.root''\<rparr>))))))
     = Some False"
  by (simp add: model_defs run_defs example_defs)

theorem first_unmet_requirement_runs_witness:
  "sent (final (move_to example_env (TName ''pay'') False False
                  (example_dialog\<lparr>ctxt := Some (example_context
                      \<lparr>entities := [(''amount'', ''42'', 1)]\<rparr>)\<rparr>)))
     = [StateChange ''billing.pay'', PostMessage (TextMessage ''Which card?'')] \<and>
   sent (final (move_to example_env (TName ''pay'') False False
                  (example_dialog\<lparr>ctxt := Some (example_context
                      \<lparr>entities := [(''amount'', ''42'', 1), (''card'', ''visa'', 0)]\<rparr>)\<rparr>)))
     = [StateChange ''billing.pay'', PostMessage (TextMessage ''Paid'')] \<and>
   sent (final (move_to example_env (TName ''pay'') False False example_dialog))
     = [StateChange ''billing.pay'', PostMessage (TextMessage ''How much?'')] \<and>
   run_accept example_env False example_dialog = say ''Noted'' example_dialog \<and>
   move_to example_env (TName ''collect_amount'') False False example_dialog
     = Returned False example_dialog"
proof -
  let ?c1 = "example_context\<lparr>entities := [(''amount'', ''42'', 1)]\<rparr>"
  let ?c2 = "example_context\<lparr>entities := [(''amount'', ''42'', 1), (''card'', ''visa'', 0)]\<rparr>"
  let ?d1 = "example_dialog\<lparr>ctxt := Some ?c1\<rparr>"
  let ?d2 = "example_dialog\<lparr>ctxt := Some ?c2\<rparr>"
  let ?pay = "\<lparr>action = Some (say ''Paid''), requires = [need_amount, need_card],
                accepts_message = (\<lambda>ks. False)\<rparr>"
  have r: "\<And>d. current_state_name d = ''billing.collect_amount'' \<Longrightarrow>
             move_to_resolve example_env (TName ''pay'') d = Inr (''billing.pay'', Some ''init'')"
    by (simp add: move_to_resolve_def resolve_name_def)
  have g: "\<And>d. get_state example_env d (Some ''billing.pay'') = Inr (Some ?pay)"
    by (simp add: get_state_def get_flow_def example_defs)
  have cur: "current_state_name ?d1 = ''billing.collect_amount''"
       "current_state_name ?d2 = ''billing.collect_amount''"
       "current_state_name example_dialog = ''billing.collect_amount''"
    by (simp_all add: example_defs)
  have n: "''billing.pay'' \<noteq> current_state_name ?d1" "''billing.pay'' \<noteq> current_state_name ?d2"
       "''billing.pay'' \<noteq> current_state_name example_dialog"
    by (simp_all add: example_defs)
  have c: "ctxt ?d1 = Some ?c1" "ctxt ?d2 = Some ?c2" "ctxt example_dialog = Some example_context"
    and rc: "recording ?d1 = Some False" "recording ?d2 = Some False"
       "recording example_dialog = Some False"
    by (simp_all add: example_defs)
  have u1: "requires ?pay = [need_amount] @ need_card # [] \<and>
      (\<forall>m\<in>set [need_amount]. req_matches m (add_state ?c1 ''billing.pay'' (now ?d1))) \<and>
      \<not> req_matches need_card (add_state ?c1 ''billing.pay'' (now ?d1))"
    by (simp add: example_defs add_state_def get_age_def)
  have u2: "\<forall>m\<in>set (requires ?pay). req_matches m (add_state ?c2 ''billing.pay'' (now ?d2))"
    by (simp add: example_defs add_state_def get_age_def)
  have u3: "requires ?pay = [] @ need_amount # [need_card] \<and>
      (\<forall>m\<in>set []. req_matches m (add_state example_context ''billing.pay'' (now example_dialog))) \<and>
      \<not> req_matches need_amount (add_state example_context ''billing.pay'' (now example_dialog))"
    by (simp add: example_defs add_state_def get_age_def)
  have ga: "get_state example_env example_dialog None = Inr (Some collect_amount_state)"
    by (simp add: get_state_def get_flow_def example_defs)
  have ri: "move_to_resolve example_env (TName ''collect_amount'') example_dialog
              = Inr (current_state_name example_dialog, Some ''init'')"
    by (simp add: move_to_resolve_def resolve_name_def example_defs)
  have 1: "move_to example_env (TName ''pay'') False False ?d1
        = move_to_finish example_env (Some ''init'') ''billing.pay''
            (req_action need_card (entered ''billing.pay'' ?c1 False ?d1))"
    using first_unmet_requirement_runs[OF r[OF cur(1)] g n(1) c(1) rc(1) g,
            of "[need_amount]" need_card "[]" False] u1 by blast
  have 2: "move_to example_env (TName ''pay'') False False ?d2
        = move_to_finish example_env (Some ''init'') ''billing.pay''
            (case action ?pay of None \<Rightarrow> Returned () (entered ''billing.pay'' ?c2 False ?d2)
             | Some act \<Rightarrow> act (entered ''billing.pay'' ?c2 False ?d2))"
    using first_unmet_requirement_runs[OF r[OF cur(2)] g n(2) c(2) rc(2) g, of _ _ _ False] u2
    by blast
  have 3: "move_to example_env (TName ''pay'') False False example_dialog
        = move_to_finish example_env (Some ''init'') ''billing.pay''
            (req_action need_amount (entered ''billing.pay'' example_context False example_dialog))"
    using first_unmet_requirement_runs[OF r[OF cur(3)] g n(3) c(3) rc(3) g,
            of "[]" need_amount "[need_card]" False] u3 by blast
  have 4: "run_accept example_env False example_dialog
             = (case action collect_amount_state of None \<Rightarrow> Returned () example_dialog
                | Some act \<Rightarrow> act example_dialog)"
    and 5: "move_to example_env (TName ''collect_amount'') False False example_dialog
              = Returned False example_dialog"
    using first_unmet_requirement_runs[OF r[OF cur(3)] g n(3) c(3) rc(3) g,
            of _ _ _ _ example_dialog collect_amount_state False "TName ''collect_amount''"
               "Some ''init''"] ga ri
    by blast+
  show ?thesis
    unfolding 1 2 3 4 5
    by (simp add: move_to_finish_def entered_def save_state_def example_defs)
qed

section \<open>An action that raises\<close>

text \<open>
  C2. Let \<^verbatim>\<open>move_to\<close> (not initializing) leave the current state for a registered
  state \<open>S\<close>, and let the action that is then selected (the action of \<open>S\<close> when all its
  requirements are met, else the action of its first unmet requirement) raise \<open>x\<close>,
  leaving the dialog \<open>d5\<close> on which \<^verbatim>\<open>self.recording\<close> is still set. The action was
  called with the pointer on the target, the previous and the new state already logged.
  \<^verbatim>\<open>move_to\<close> returns \<^verbatim>\<open>True\<close>; the pointer is where the action left it (no
  rollback); after the messages of the action, exactly one message was posted, the fixed
  apology; and the state and the context are saved in the store. The log gets the banner,
  the line with the action variant and the new state, the chat id, then the snapshot of
  the context, and last the exception \<open>x\<close> itself: when the current state is registered
  and \<^verbatim>\<open>debug\<close> returns a text, the snapshot is the line \<^verbatim>\<open>Context:\<close> with that
  text; when the snapshot cannot be computed (no current state, no context,
  \<^verbatim>\<open>debug\<close> raises), that line alone is missing, and the exception is logged all the
  same.
\<close>

theorem action_failure_contained:
  assumes "move_to_resolve e tgt d = Inr (n, a)"
    and "get_state e d (Some n) = Inr (Some S0)"
    and "n \<noteq> current_state_name d"
    and "ctxt d = Some c"
    and "recording d = Some r"
    and "get_state e (d\<lparr>current_state_name := n\<rparr>) (Some n) = Inr (Some S)"
    and "((\<forall>m\<in>set (requires S). req_matches m (add_state c n (now d))) \<and>
          action S = Some act \<and> act (entered n c r d) = Raised x d5) \<or>
         (requires S = ms @ rq # rest \<and>
          (\<forall>m\<in>set ms. req_matches m (add_state c n (now d))) \<and>
          \<not> req_matches rq (add_state c n (now d)) \<and>
          req_action rq (entered n c r d) = Raised x d5)"
    and "recording d5 = Some r5"
  shows
    "current_state_name (entered n c r d) = n \<and>
     move_to e tgt False si d =
       Returned True
         (save_state e
            (d5\<lparr>errlog := errlog d5 @
                  [LogError ''*****************************************************'',
                   LogError (''Exception occurred while running action '' @ show_opt a @
                             '' of state '' @ n),
                   LogError (''Chat id: '' @ chat_id e)] @
                  context_snapshot e d5 @
                  [LogException ''Exception follows'' x],
                sent := sent d5 @ [PostMessage (TextMessage (error_message_text e))],
                recorder := (if r5 then recorder d5 @
                                          [RecBotMessage (TextMessage (error_message_text e))]
                             else recorder d5)\<rparr>)) \<and>
     current_state_name (final (move_to e tgt False si d)) = current_state_name d5 \<and>
     sent (final (move_to e tgt False si d)) =
       sent d5 @ [PostMessage (TextMessage (error_message_text e))] \<and>
     last (errlog (final (move_to e tgt False si d))) = LogException ''Exception follows'' x \<and>
     errlog (entered n c r d) = errlog d @ [LogError (current_state_name d), LogError n] \<and>
     (get_state e d5 None = Inr (Some S5) \<and> ctxt d5 = Some c5 \<and> debug e c5 = Some txt \<longrightarrow>
        errlog (final (move_to e tgt False si d)) =
          errlog d5 @
          [LogError ''*****************************************************'',
           LogError (''Exception occurred while running action '' @ show_opt a @
                     '' of state '' @ n),
           LogError (''Chat id: '' @ chat_id e),
           LogError (''Context: '' @ txt),
           LogException ''Exception follows'' x]) \<and>
     ((\<forall>S'. get_state e d5 None \<noteq> Inr (Some S')) \<or> ctxt d5 = None \<or>
      (\<exists>c'. ctxt d5 = Some c' \<and> debug e c' = None) \<longrightarrow>
        errlog (final (move_to e tgt False si d)) =
          errlog d5 @
          [LogError ''*****************************************************'',
           LogError (''Exception occurred while running action '' @ show_opt a @
                     '' of state '' @ n),
           LogError (''Chat id: '' @ chat_id e),
           LogException ''Exception follows'' x]) \<and>
     (\<forall>c5. ctxt d5 = Some c5 \<longrightarrow>
        session_state (db (final (move_to e tgt False si d))) (chat_id e)
          = Some (current_state_name d5) \<and>
        session_context (db (final (move_to e tgt False si d))) (chat_id e) = Some c5)"
proof -
  have m: "move_to e tgt False si d = move_to_finish e a n (Raised x d5)"
    using assms(7) move_to_selects[OF assms(1-6), of si]
      find_first_unmet[of S ms rq rest "add_state c n (now d)"]
      find_all_met[of S "add_state c n (now d)"]
    by auto
  have f: "move_to_finish e a n (Raised x d5) =
       Returned True
         (save_state e
            (d5\<lparr>errlog := errlog d5 @
                  [LogError ''*****************************************************'',
                   LogError (''Exception occurred while running action '' @ show_opt a @
                             '' of state '' @ n),
                   LogError (''Chat id: '' @ chat_id e)] @
                  context_snapshot e d5 @
                  [LogException ''Exception follows'' x],
                sent := sent d5 @ [PostMessage (TextMessage (error_message_text e))],
                recorder := (if r5 then recorder d5 @
                                          [RecBotMessage (TextMessage (error_message_text e))]
                             else recorder d5)\<rparr>))"
    by (simp add: move_to_finish_def move_to_except_sends[OF assms(8)])
  have s1: "get_state e d5 None = Inr (Some S5) \<and> ctxt d5 = Some c5 \<and> debug e c5 = Some txt \<longrightarrow>
              context_snapshot e d5 = [LogError (''Context: '' @ txt)]"
    by (simp add: context_snapshot_def)
  have s2: "(\<forall>S'. get_state e d5 None \<noteq> Inr (Some S')) \<or> ctxt d5 = None \<or>
            (\<exists>c'. ctxt d5 = Some c' \<and> debug e c' = None) \<longrightarrow> context_snapshot e d5 = []"
    by (auto simp: context_snapshot_def split: sum.splits option.splits)
  have l: "errlog (final (move_to e tgt False si d)) =
             errlog d5 @
             [LogError ''*****************************************************'',
              LogError (''Exception occurred while running action '' @ show_opt a @
                        '' of state '' @ n),
              LogError (''Chat id: '' @ chat_id e)] @
             context_snapshot e d5 @
             [LogException ''Exception follows'' x]"
    unfolding m f by (simp add: save_state_def split: option.splits)
  have rest: "current_state_name (final (move_to e tgt False si d)) = current_state_name d5 \<and>
     sent (final (move_to e tgt False si d)) =
       sent d5 @ [PostMessage (TextMessage (error_message_text e))] \<and>
     last (errlog (final (move_to e tgt False si d))) = LogException ''Exception follows'' x \<and>
     (\<forall>c5. ctxt d5 = Some c5 \<longrightarrow>
        session_state (db (final (move_to e tgt False si d))) (chat_id e)
          = Some (current_state_name d5) \<and>
        session_context (db (final (move_to e tgt False si d))) (chat_id e) = Some c5)"
    unfolding m f
    by (auto simp: save_state_def split: option.splits)
  have en: "errlog (entered n c r d) = errlog d @ [LogError (current_state_name d), LogError n]"
    by (simp add: entered_def)
  from s1 l have p1: "get_state e d5 None = Inr (Some S5) \<and> ctxt d5 = Some c5 \<and>
        debug e c5 = Some txt \<longrightarrow>
        errlog (final (move_to e tgt False si d)) =
          errlog d5 @
          [LogError ''*****************************************************'',
           LogError (''Exception occurred while running action '' @ show_opt a @
                     '' of state '' @ n),
           LogError (''Chat id: '' @ chat_id e),
           LogError (''Context: '' @ txt),
           LogException ''Exception follows'' x]"
    by simp
  from s2 l have p2: "(\<forall>S'. get_state e d5 None \<noteq> Inr (Some S')) \<or> ctxt d5 = None \<or>
      (\<exists>c'. ctxt d5 = Some c' \<and> debug e c' = None) \<longrightarrow>
        errlog (final (move_to e tgt False si d)) =
          errlog d5 @
          [LogError ''*****************************************************'',
           LogError (''Exception occurred while running action '' @ show_opt a @
                     '' of state '' @ n),
           LogError (''Chat id: '' @ chat_id e),
           LogException ''Exception follows'' x]"
    by simp
  have mf: "move_to e tgt False si d =
       Returned True
         (save_state e
            (d5\<lparr>errlog := errlog d5 @
                  [LogError ''*****************************************************'',
                   LogError (''Exception occurred while running action '' @ show_opt a @
                             '' of state '' @ n),
                   LogError (''Chat id: '' @ chat_id e)] @
                  context_snapshot e d5 @
                  [LogException ''Exception follows'' x],
                sent := sent d5 @ [PostMessage (TextMessage (error_message_text e))],
                recorder := (if r5 then recorder d5 @
                                          [RecBotMessage (TextMessage (error_message_text e))]
                             else recorder d5)\<rparr>))"
    using m f by simp
  have p0: "current_state_name (entered n c r d) = n" by simp
  from p0 mf rest en p1 p2 show ?thesis by blast
qed



theorem action_failure_contained_witness:
  "(\<exists>d'. move_to example_env (TName ''broken'') False False example_dialog
           = Returned True d') \<and>
   current_state_name (final (move_to example_env (TName ''broken'') False False example_dialog))
     = ''billing.broken'' \<and>
   sent (final (move_to example_env (TName ''broken'') False False example_dialog))
     = [StateChange ''billing.broken'', PostMessage (TextMessage ''Oh no! You broke me! :('')] \<and>
   session_state (db (final (move_to example_env (TName ''broken'') False False example_dialog)))
     ''test_1'' = Some ''billing.broken'' \<and>
   errlog (final (move_to example_env (TName ''broken'') False False example_dialog))
     = [LogError ''billing.collect_amount'', LogError ''billing.broken'',
        LogError ''*****************************************************'',
        LogError ''Exception occurred while running action init of state billing.broken'',
        LogError ''Chat id: test_1'',
        LogError ''Context: no entities'',
        LogException ''Exception follows'' (Exception ''boom'')] \<and>
   (\<exists>d'. move_to (example_env\<lparr>debug := (\<lambda>c. None)\<rparr>) (TName ''broken'') False False
            example_dialog = Returned True d') \<and>
   errlog (final (move_to (example_env\<lparr>debug := (\<lambda>c. None)\<rparr>) (TName ''broken'') False False
                    example_dialog))
     = [LogError ''billing.collect_amount'', LogError ''billing.broken'',
        LogError ''*****************************************************'',
        LogError ''Exception occurred while running action init of state billing.broken'',
        LogError ''Chat id: test_1'',
        LogException ''Exception follows'' (Exception ''boom'')]"
proof -
  let ?broken = "\<lparr>action = Some failing, requires = [],
                       accepts_message = (\<lambda>ks. False)\<rparr>"
  let ?d5 = "entered ''billing.broken'' example_context False example_dialog"
  let ?c5 = "add_state example_context ''billing.broken'' 4"
  let ?e' = "example_env\<lparr>debug := (\<lambda>c. None)\<rparr>"
  have r: "move_to_resolve example_env (TName ''broken'') example_dialog
             = Inr (''billing.broken'', Some ''init'')"
    and r': "move_to_resolve ?e' (TName ''broken'') example_dialog
             = Inr (''billing.broken'', Some ''init'')"
    by (simp_all add: move_to_resolve_def resolve_name_def example_defs)
  have g: "get_state example_env example_dialog (Some ''billing.broken'') = Inr (Some ?broken)"
    and g': "get_state example_env (example_dialog\<lparr>current_state_name := ''billing.broken''\<rparr>)
              (Some ''billing.broken'') = Inr (Some ?broken)"
    and g5: "get_state example_env ?d5 None = Inr (Some ?broken)"
    and h: "get_state ?e' example_dialog (Some ''billing.broken'') = Inr (Some ?broken)"
    and h': "get_state ?e' (example_dialog\<lparr>current_state_name := ''billing.broken''\<rparr>)
              (Some ''billing.broken'') = Inr (Some ?broken)"
    by (simp_all add: get_state_def get_flow_def entered_def example_defs)
  have n: "''billing.broken'' \<noteq> current_state_name example_dialog"
    by (simp add: example_defs)
  have c: "ctxt example_dialog = Some example_context"
    and rc: "recording example_dialog = Some False"
    by (simp_all add: example_defs)
  have a: "((\<forall>m\<in>set (requires ?broken).
               req_matches m (add_state example_context ''billing.broken'' (now example_dialog))) \<and>
            action ?broken = Some failing \<and> failing ?d5 = Raised (Exception ''boom'') ?d5) \<or>
           (requires ?broken = [] @ need_card # [] \<and>
            (\<forall>m\<in>set []. req_matches m
               (add_state example_context ''billing.broken'' (now example_dialog))) \<and>
            \<not> req_matches need_card
               (add_state example_context ''billing.broken'' (now example_dialog)) \<and>
            req_action need_card ?d5 = Raised (Exception ''boom'') ?d5)"
    by (simp add: failing_def)
  have r5: "recording ?d5 = Some False"
    by (simp add: entered_def example_defs)
  have c5: "ctxt ?d5 = Some ?c5"
    by (simp add: entered_def example_defs)
  have dbg: "debug example_env ?c5 = Some ''no entities''"
    and dbg': "\<exists>c'. ctxt ?d5 = Some c' \<and> debug ?e' c' = None"
    by (simp_all add: entered_def add_state_def example_defs)
  have p: "current_state_name ?d5 = ''billing.broken''"
    and s: "sent ?d5 = [StateChange ''billing.broken'']"
    and l: "errlog ?d5 = [LogError ''billing.collect_amount'', LogError ''billing.broken'']"
    and e: "error_message_text example_env = ''Oh no! You broke me! :(''"
       "chat_id example_env = ''test_1''" "chat_id ?e' = ''test_1''"
    by (simp_all add: entered_def example_defs)
  note t = action_failure_contained[OF r g n c rc g' a r5, of False ?broken ?c5 "''no entities''"]
  note t' = action_failure_contained[OF r' h n c rc h' a r5, of False]
  from t g5 c5 dbg p s l e have 1:
    "(\<exists>d'. move_to example_env (TName ''broken'') False False example_dialog
           = Returned True d') \<and>
   current_state_name (final (move_to example_env (TName ''broken'') False False example_dialog))
     = ''billing.broken'' \<and>
   sent (final (move_to example_env (TName ''broken'') False False example_dialog))
     = [StateChange ''billing.broken'', PostMessage (TextMessage ''Oh no! You broke me! :('')] \<and>
   session_state (db (final (move_to example_env (TName ''broken'') False False example_dialog)))
     ''test_1'' = Some ''billing.broken'' \<and>
   errlog (final (move_to example_env (TName ''broken'') False False example_dialog))
     = [LogError ''billing.collect_amount'', LogError ''billing.broken'',
        LogError ''*****************************************************'',
        LogError ''Exception occurred while running action init of state billing.broken'',
        LogError ''Chat id: test_1'',
        LogError ''Context: no entities'',
        LogException ''Exception follows'' (Exception ''boom'')]"
    by auto
  from t' dbg' l e have 2:
    "(\<exists>d'. move_to ?e' (TName ''broken'') False False example_dialog = Returned True d') \<and>
     errlog (final (move_to ?e' (TName ''broken'') False False example_dialog))
     = [LogError ''billing.collect_amount'', LogError ''billing.broken'',
        LogError ''*****************************************************'',
        LogError ''Exception occurred while running action init of state billing.broken'',
        LogError ''Chat id: test_1'',
        LogException ''Exception follows'' (Exception ''boom'')]"
    by auto
  from 1 2 show ?thesis by simp
qed

section \<open>An identical target and the in-place acceptance\<close>

text \<open>
  C7. When the name that the argument of \<^verbatim>\<open>move_to\<close> resolves to is the current
  state and \<^verbatim>\<open>save_identical\<close> was not asked for, \<^verbatim>\<open>move_to\<close> returns
  \<^verbatim>\<open>False\<close> on the unchanged dialog: nothing is appended to the history. Hence a
  turn which reaches the rules, in which neither the override nor the intent transition
  fires and the current state accepts one of the new entity keys, leaves the history as
  long as it was, provided the action of the state, which is then re-run, does not itself
  change the length of the history.
\<close>

theorem acceptance_keeps_history:
  "(move_to_resolve e tgt d = Inr (current_state_name d, a) \<longrightarrow>
      move_to e tgt initializing False d = Returned False d) \<and>
   (process_begin e mt ents d = Returned (Some en) d1 \<and>
    check_state_transition e d1 = Returned False d1' \<and>
    check_intent_transition e d1 = Returned False d2 \<and>
    get_state e d1 None = Inr (Some st) \<and>
    accepts_message st (map fst en) \<and>
    (\<forall>act d'. action st = Some act \<longrightarrow>
       length (history_of (final (act d'))) = length (history_of d')) \<longrightarrow>
      length (history_of (final (process e mt ents d))) = length (history_of d))"
proof (intro conjI impI)
  assume "move_to_resolve e tgt d = Inr (current_state_name d, a)"
  then show "move_to e tgt initializing False d = Returned False d"
    by (rule move_to_identical)
next
  assume h: "process_begin e mt ents d = Returned (Some en) d1 \<and>
    check_state_transition e d1 = Returned False d1' \<and>
    check_intent_transition e d1 = Returned False d2 \<and>
    get_state e d1 None = Inr (Some st) \<and>
    accepts_message st (map fst en) \<and>
    (\<forall>act d'. action st = Some act \<longrightarrow>
       length (history_of (final (act d'))) = length (history_of d'))"
  then have b: "process_begin e mt ents d = Returned (Some en) d1"
    and s: "check_state_transition e d1 = Returned False d1'"
    and i: "check_intent_transition e d1 = Returned False d2"
    and g: "get_state e d1 None = Inr (Some st)"
    and acc: "accepts_message st (map fst en)"
    and act: "\<And>act d'. action st = Some act \<Longrightarrow>
       length (history_of (final (act d'))) = length (history_of d')"
    by blast+
  from s have s': "check_state_transition e d1 = Returned False d1"
    using check_state_False_same by blast
  from i have fr: "ctxt d2 = ctxt d1" "current_state_name d2 = current_state_name d1"
    using check_intent_False_frame by blast+
  from fr(2) g have g2: "get_state e d2 None = Inr (Some st)"
    using get_state_cong[of d2 d1 e None] by simp
  have h1: "history_of d1 = history_of d"
    using process_begin_history[of e mt ents d] b by simp
  have h2: "history_of d2 = history_of d1"
    using fr(1) by (simp add: history_of_def)
  have ra: "length (history_of (final (run_accept e True d2))) = length (history_of d2)"
    using g2 act by (cases "action st") (simp_all add: run_accept_def)
  have "length (history_of (final (process e mt ents d))) = length (history_of (final (run_accept e True d2)))"
    using b s' i g2 acc
    by (cases "run_accept e True d2")
       (simp_all add: process_def process_transitions_def history_of_def)
  with ra h1 h2 show "length (history_of (final (process e mt ents d))) = length (history_of d)"
    by simp
qed

theorem acceptance_keeps_history_witness:
  "move_to example_env TNone False False example_dialog = Returned False example_dialog \<and>
   length (history_of example_dialog) = 3 \<and>
   length (history_of (final (process example_env ''message'' [(''amount'', ''42'')]
                                example_dialog))) = 3"
proof -
  let ?d1 = "final (process_begin example_env ''message'' [(''amount'', ''42'')] example_dialog)"
  let ?st = "\<lparr>action = Some (say ''Noted''), requires = [need_card],
               accepts_message = (\<lambda>ks. ''amount'' \<in> set ks)\<rparr>"
  have r: "move_to_resolve example_env TNone example_dialog
             = Inr (current_state_name example_dialog, Some ''init'')"
    by (simp add: model_defs example_defs)
  have b: "process_begin example_env ''message'' [(''amount'', ''42'')] example_dialog
             = Returned (Some [(''amount'', ''42'')]) ?d1"
    by (simp add: model_defs example_defs)
  have s: "check_state_transition example_env ?d1 = Returned False ?d1"
    by (simp add: model_defs example_defs)
  have i: "check_intent_transition example_env ?d1 = Returned False ?d1"
    by (simp add: model_defs example_defs)
  have g: "get_state example_env ?d1 None = Inr (Some ?st)"
    by (simp add: model_defs example_defs)
  have a: "accepts_message ?st (map fst [(''amount'', ''42'')])" by simp
  have k: "\<forall>act d'. action ?st = Some act \<longrightarrow>
             length (history_of (final (act d'))) = length (history_of d')"
    by (simp add: say_def history_of_def)
  have l: "length (history_of example_dialog) = 3"
    by (simp add: history_of_def example_defs)
  from acceptance_keeps_history[of example_env TNone example_dialog "Some ''init'' " False
         "''message''" "[(''amount'', ''42'')]" "[(''amount'', ''42'')]" ?d1 ?d1 ?d1 ?st]
    r b s i g a k l
  show ?thesis by simp
qed

section \<open>The in-place acceptance does not check requirements\<close>

text \<open>
  C10. \<^verbatim>\<open>run_accept\<close> runs the action of the current state (nothing, when it has
  none) whatever the requirements of the state are: they do not occur in its result. So
  when neither the override nor the intent transition fires and the current state
  accepts one of the new entity keys, the turn is the action of the current state
  followed by \<^verbatim>\<open>save_state\<close>, even when a requirement of the state is unmet. And a
  \<^verbatim>\<open>move_to\<close> whose target resolves to the current state returns before that check:
  at most the history entry of \<^verbatim>\<open>save_identical\<close> is added, no requirement is
  checked and no action runs.
\<close>

theorem acceptance_skips_requirements:
  assumes "get_state e d None = Inr (Some st)"
  shows
    "run_accept e si d = (case action st of None \<Rightarrow> Returned () d | Some act \<Rightarrow> act d) \<and>
     (check_state_transition e d = Returned False d1 \<and>
      check_intent_transition e d = Returned False d2 \<and>
      accepts_message st (map fst ents) \<longrightarrow>
        process_transitions e ents d =
          (case (case action st of None \<Rightarrow> Returned () d2 | Some act \<Rightarrow> act d2) of
             Raised x d3 \<Rightarrow> Raised x d3
           | Returned u d3 \<Rightarrow> Returned () (save_state e d3))) \<and>
     (move_to_resolve e tgt d = Inr (current_state_name d, a) \<longrightarrow>
        move_to e tgt ini si' d =
          (if \<not> ini \<and> si'
           then (case ctxt d of
                   None \<Rightarrow> Raised AttributeError d
                 | Some c \<Rightarrow>
                     Returned False
                       (d\<lparr>ctxt := Some (add_state c (current_state_name d) (now d))\<rparr>))
           else Returned False d))"
proof (intro conjI impI)
  show "run_accept e si d = (case action st of None \<Rightarrow> Returned () d | Some act \<Rightarrow> act d)"
    using assms by (rule run_accept_action)
next
  assume h: "check_state_transition e d = Returned False d1 \<and>
      check_intent_transition e d = Returned False d2 \<and>
      accepts_message st (map fst ents)"
  then have s: "check_state_transition e d = Returned False d"
    using check_state_False_same by blast
  from h have i: "check_intent_transition e d = Returned False d2"
    and acc: "accepts_message st (map fst ents)" by simp_all
  from i have "current_state_name d2 = current_state_name d"
    using check_intent_False_frame by blast
  with assms have g2: "get_state e d2 None = Inr (Some st)"
    using get_state_cong[of d2 d e None] by simp
  from s i acc g2 run_accept_action[OF g2, of True]
  show "process_transitions e ents d =
          (case (case action st of None \<Rightarrow> Returned () d2 | Some act \<Rightarrow> act d2) of
             Raised x d3 \<Rightarrow> Raised x d3
           | Returned u d3 \<Rightarrow> Returned () (save_state e d3))"
    by (simp add: process_transitions_def)
next
  assume "move_to_resolve e tgt d = Inr (current_state_name d, a)"
  then show "move_to e tgt ini si' d =
          (if \<not> ini \<and> si'
           then (case ctxt d of
                   None \<Rightarrow> Raised AttributeError d
                 | Some c \<Rightarrow>
                     Returned False
                       (d\<lparr>ctxt := Some (add_state c (current_state_name d) (now d))\<rparr>))
           else Returned False d)"
    using assms by (rule move_to_identical_any)
qed

theorem acceptance_skips_requirements_witness:
  "\<not> check_requirements
       \<lparr>action = Some (say ''Noted''), requires = [need_card],
        accepts_message = (\<lambda>ks. ''amount'' \<in> set ks)\<rparr>
       (example_context\<lparr>entities := [(''amount'', ''42'', 0)]\<rparr>) \<and>
   sent (final (process_transitions example_env [(''amount'', ''42'')]
                  (example_dialog\<lparr>ctxt := Some (example_context\<lparr>entities := [(''amount'', ''42'', 0)]\<rparr>)\<rparr>)))
     = [PostMessage (TextMessage ''Noted'')] \<and>
   move_to example_env (TName ''collect_amount'') False True
     (example_dialog\<lparr>ctxt := Some (example_context\<lparr>entities := [(''amount'', ''42'', 0)]\<rparr>)\<rparr>)
     = Returned False
         (example_dialog\<lparr>ctxt := Some (example_context\<lparr>entities := [(''amount'', ''42'', 0)],
             history := history example_context @ [(''billing.collect_amount'', 4)]\<rparr>)\<rparr>)"
proof -
  let ?c = "example_context\<lparr>entities := [(''amount'', ''42'', 0)]\<rparr>"
  let ?d = "example_dialog\<lparr>ctxt := Some ?c\<rparr>"
  let ?st = "\<lparr>action = Some (say ''Noted''), requires = [need_card],
               accepts_message = (\<lambda>ks. ''amount'' \<in> set ks)\<rparr>"
  have g: "get_state example_env ?d None = Inr (Some ?st)"
    by (simp add: model_defs example_defs)
  have s: "check_state_transition example_env ?d = Returned False ?d"
    by (simp add: model_defs example_defs)
  have i: "check_intent_transition example_env ?d = Returned False ?d"
    by (simp add: model_defs example_defs)
  have a: "accepts_message ?st (map fst [(''amount'', ''42'')])" by simp
  have r: "move_to_resolve example_env (TName ''collect_amount'') ?d
             = Inr (current_state_name ?d, Some ''init'')"
    by (simp add: model_defs example_defs)
  have u: "\<not> check_requirements ?st ?c"
    by (simp add: check_requirements_def example_defs get_age_def)
  from acceptance_skips_requirements[OF g, of True ?d ?d "[(''amount'', ''42'')]"
        "TName ''collect_amount''" "Some ''init''" False True] s i a r u
  show ?thesis
    by (simp add: say_def save_state_def add_state_def example_defs)
qed

section \<open>Going back in the history\<close>

text \<open>
  C9. With an integer argument \<open>N\<close>, \<^verbatim>\<open>move_to\<close> looks the history up at the offset
  \<open>N - 1\<close> and resolves the name of the entry found there as it resolves a name, without
  action variant. For every \<open>N\<close> from 2 to the length of the history, the entry found is
  the one at position \<open>N - 1\<close>, counted from 1 and from the end, of the history without
  its last entry, the current one; for every other \<open>N\<close> the lookup yields nothing. With
  the history \<open>[A, B, C]\<close> and the current state \<open>C\<close>, \<^verbatim>\<open>move_to(2)\<close> resolves to
  \<open>B\<close> (a name of the form \<^verbatim>\<open>flow.state\<close>). When the lookup yields nothing, the
  target is the current state, and \<^verbatim>\<open>move_to\<close> returns \<^verbatim>\<open>False\<close> on the unchanged
  dialog (the current state being of the form \<^verbatim>\<open>flow.state\<close>).
\<close>

theorem move_to_back_in_history:
  assumes "ctxt d = Some c"
  shows
    "move_to_resolve e (TInt N) d =
       Inr (resolve_name (current_state_name d)
              (map_option fst (get_history_state c (N - 1))) None) \<and>
     (2 \<le> N \<and> N \<le> int (length (history c)) \<longrightarrow>
        get_history_state c (N - 1) = Some (rev (butlast (history c)) ! nat (N - 2)) \<and>
        move_to_resolve e (TInt N) d =
          Inr (resolve_name (current_state_name d)
                 (Some (fst (rev (butlast (history c)) ! nat (N - 2)))) None)) \<and>
     (N < 2 \<or> int (length (history c)) < N \<longrightarrow> get_history_state c (N - 1) = None) \<and>
     (history c = [(A, ta), (B, tb), (C, tc)] \<and> current_state_name d = C \<and>
      CHR ''.'' \<in> set B \<and> CHR '':'' \<notin> set B \<longrightarrow>
        move_to_resolve e (TInt 2) d = Inr (B, None)) \<and>
     (get_history_state c (N - 1) = None \<and>
      CHR ''.'' \<in> set (current_state_name d) \<and> CHR '':'' \<notin> set (current_state_name d) \<longrightarrow>
        move_to e (TInt N) initializing False d = Returned False d)"
proof (intro conjI impI)
  show r: "move_to_resolve e (TInt N) d =
       Inr (resolve_name (current_state_name d)
              (map_option fst (get_history_state c (N - 1))) None)"
    using assms by (simp add: move_to_resolve_def)
  {
    assume h: "2 \<le> N \<and> N \<le> int (length (history c))"
    then show g: "get_history_state c (N - 1) = Some (rev (butlast (history c)) ! nat (N - 2))"
      using history_lookup_from_end by blast
    from r g show "move_to_resolve e (TInt N) d =
          Inr (resolve_name (current_state_name d)
                 (Some (fst (rev (butlast (history c)) ! nat (N - 2)))) None)"
      by simp
  }
next
  assume "N < 2 \<or> int (length (history c)) < N"
  then show "get_history_state c (N - 1) = None" by (rule history_lookup_nothing)
next
  assume h: "history c = [(A, ta), (B, tb), (C, tc)] \<and> current_state_name d = C \<and>
      CHR ''.'' \<in> set B \<and> CHR '':'' \<notin> set B"
  then have "get_history_state c (2 - 1) = Some (B, tb)"
    by (simp add: get_history_state_def)
  with assms h show "move_to_resolve e (TInt 2) d = Inr (B, None)"
    by (simp add: move_to_resolve_def resolve_name_plain)
next
  assume h: "get_history_state c (N - 1) = None \<and>
      CHR ''.'' \<in> set (current_state_name d) \<and> CHR '':'' \<notin> set (current_state_name d)"
  with assms have "move_to_resolve e (TInt N) d = Inr (current_state_name d, None)"
    by (simp add: move_to_resolve_def resolve_name_current)
  then show "move_to e (TInt N) initializing False d = Returned False d"
    by (rule move_to_identical)
qed

theorem move_to_back_in_history_witness:
  "move_to_resolve example_env (TInt 2) example_dialog = Inr (''billing.root'', None) \<and>
   move_to_resolve example_env (TInt 3) example_dialog = Inr (''default.root'', None) \<and>
   current_state_name (final (move_to example_env (TInt 3) False False example_dialog))
     = ''default.root'' \<and>
   get_history_state example_context (1 - 1) = None \<and>
   get_history_state example_context (4 - 1) = None \<and>
   move_to example_env (TInt 4) False False example_dialog = Returned False example_dialog"
proof -
  have c: "ctxt example_dialog = Some example_context" by (simp add: example_defs)
  have l: "int (length (history example_context)) = 3"
    and h: "history example_context =
             [(''default.root'', 1), (''billing.root'', 2), (''billing.collect_amount'', 3)]"
    and cur: "current_state_name example_dialog = ''billing.collect_amount''"
    by (simp_all add: example_defs)
  have m: "current_state_name (final (move_to example_env (TInt 3) False False example_dialog))
     = ''default.root''"
    by (simp add: model_defs Let_def get_history_state_def move_to_finish_def move_to_try_def
          run_accept_def check_requirements_def save_state_def example_defs)
  note t = move_to_back_in_history[OF c, of example_env _ "''default.root''" 1 "''billing.root''" 2
         "''billing.collect_amount''" 3 False]
  from t[of 2] l h cur
  have 2: "move_to_resolve example_env (TInt 2) example_dialog = Inr (''billing.root'', None)"
    by (simp add: resolve_name_def)
  from t[of 3] l h cur
  have 3: "move_to_resolve example_env (TInt 3) example_dialog = Inr (''default.root'', None)"
    by (simp add: resolve_name_def)
  from t[of 1] l have 1: "get_history_state example_context (1 - 1) = None" by simp
  from t[of 4] l cur have 4: "get_history_state example_context (4 - 1) = None"
    "move_to example_env (TInt 4) False False example_dialog = Returned False example_dialog"
    by simp_all
  from 1 2 3 4 m show ?thesis by simp
qed

section \<open>Construction of a session\<close>

text \<open>
  C5. When the version stored under \<^verbatim>\<open>dialog_version\<close> is absent or is not the
  version of the engine, or when \<^verbatim>\<open>session_context\<close> has no entry for the chat id,
  the constructor returns, without raising, a fresh session: the empty context and the
  current state \<^verbatim>\<open>default.root\<close>. A constructed dialog that is not the fresh one was
  made with a matching version and a stored context, and its context is the stored one.
  With a matching version, a stored context and a stored state, the context is the stored
  one and the current state is the stored state when the registry has it, and
  \<^verbatim>\<open>default.root\<close> otherwise.
\<close>

theorem init_fresh_or_restored:
  "(\<not> (dialog_version s = Some version \<and> session_context s (chat_id e) \<noteq> None) \<longrightarrow>
      init e s t = Inr ((init_dialog s t)\<lparr>ctxt := Some empty_context\<rparr>) \<and>
      current_state_name ((init_dialog s t)\<lparr>ctxt := Some empty_context\<rparr>) = ''default.root'') \<and>
   (init e s t = Inr d \<and>
    (ctxt d \<noteq> Some empty_context \<or> current_state_name d \<noteq> ''default.root'') \<longrightarrow>
      dialog_version s = Some version \<and> session_context s (chat_id e) \<noteq> None \<and>
      ctxt d = session_context s (chat_id e)) \<and>
   (dialog_version s = Some version \<and> session_context s (chat_id e) = Some c \<and>
    session_state s (chat_id e) = Some st \<and>
    move_to_resolve e (TName st) (init_dialog s t) = Inr (n, a) \<longrightarrow>
      init e s t =
        Inr ((init_dialog s t)
               \<lparr>current_state_name :=
                  (case get_state e (init_dialog s t) (Some n) of
                     Inr (Some S) \<Rightarrow> n
                   | _ \<Rightarrow> ''default.root''),
                ctxt := Some c\<rparr>))"
proof (intro conjI impI)
  assume "\<not> (dialog_version s = Some version \<and> session_context s (chat_id e) \<noteq> None)"
  then show "init e s t = Inr ((init_dialog s t)\<lparr>ctxt := Some empty_context\<rparr>)"
    by (auto simp: init_def init_dialog_def)
next
  show "current_state_name ((init_dialog s t)\<lparr>ctxt := Some empty_context\<rparr>) = ''default.root''"
    by simp
next
  assume h: "init e s t = Inr d \<and>
    (ctxt d \<noteq> Some empty_context \<or> current_state_name d \<noteq> ''default.root'')"
  have c: "dialog_version s = Some version \<and> session_context s (chat_id e) \<noteq> None"
  proof (rule ccontr)
    assume "\<not> ?thesis"
    then have "init e s t = Inr ((init_dialog s t)\<lparr>ctxt := Some empty_context\<rparr>)"
      by (auto simp: init_def init_dialog_def)
    with h show False by auto
  qed
  then show "dialog_version s = Some version" and "session_context s (chat_id e) \<noteq> None"
    by simp_all
  from h c show "ctxt d = session_context s (chat_id e)"
    by (auto simp: init_def split: option.splits outcome.splits)
next
  assume h: "dialog_version s = Some version \<and> session_context s (chat_id e) = Some c \<and>
    session_state s (chat_id e) = Some st \<and>
    move_to_resolve e (TName st) (init_dialog s t) = Inr (n, a)"
  then have r: "move_to_resolve e (TName st) (init_dialog s t) = Inr (n, a)" by simp
  have m: "move_to e (TName st) True False (init_dialog s t) =
           (case get_state e (init_dialog s t) (Some n) of
              Inr (Some S) \<Rightarrow>
                if n = current_state_name (init_dialog s t) then Returned False (init_dialog s t)
                else Returned True ((init_dialog s t)\<lparr>current_state_name := n\<rparr>)
            | _ \<Rightarrow> Returned False (init_dialog s t))"
    by (rule move_to_initializing[OF r]) simp_all
  from h show "init e s t =
        Inr ((init_dialog s t)
               \<lparr>current_state_name :=
                  (case get_state e (init_dialog s t) (Some n) of
                     Inr (Some S) \<Rightarrow> n
                   | _ \<Rightarrow> ''default.root''),
                ctxt := Some c\<rparr>)"
  proof -
    have k: "(init_dialog s t)\<lparr>current_state_name := ''default.root''\<rparr> = init_dialog s t"
      by (simp add: init_dialog_def)
    have "init e s t =
            (case move_to e (TName st) True False (init_dialog s t) of
               Raised x d1 \<Rightarrow> Inl x
             | Returned u d1 \<Rightarrow> Inr (d1\<lparr>ctxt := Some c\<rparr>))"
      using h by (simp add: init_def split: outcome.splits)
    also have "\<dots> = Inr ((init_dialog s t)
               \<lparr>current_state_name :=
                  (case get_state e (init_dialog s t) (Some n) of
                     Inr (Some S) \<Rightarrow> n
                   | _ \<Rightarrow> ''default.root''),
                ctxt := Some c\<rparr>)"
      unfolding m using k
      by (auto split: sum.splits option.splits)
    finally show ?thesis .
  qed
qed

theorem init_fresh_or_restored_witness:
  "init example_env
     (empty_store\<lparr>dialog_version := Some ''1.31'',
                  session_state := [''test_1'' \<mapsto> ''billing.collect_amount''],
                  session_context := [''test_1'' \<mapsto> example_context]\<rparr>) 7
     = Inr \<lparr>current_state_name = ''default.root'', ctxt = Some empty_context,
            recording = None,
            db = empty_store\<lparr>dialog_version := Some ''1.31'',
                   session_state := [''test_1'' \<mapsto> ''billing.collect_amount''],
                   session_context := [''test_1'' \<mapsto> example_context]\<rparr>,
            sent = [], recorder = [], tasks = [], errlog = [], now = 7\<rparr> \<and>
   init example_env
     (empty_store\<lparr>dialog_version := Some ''1.32'',
                  session_state := [''test_1'' \<mapsto> ''billing.collect_amount''],
                  session_context := [''test_1'' \<mapsto> example_context]\<rparr>) 7
     = Inr \<lparr>current_state_name = ''billing.collect_amount'', ctxt = Some example_context,
            recording = None,
            db = empty_store\<lparr>dialog_version := Some ''1.32'',
                   session_state := [''test_1'' \<mapsto> ''billing.collect_amount''],
                   session_context := [''test_1'' \<mapsto> example_context]\<rparr>,
            sent = [], recorder = [], tasks = [], errlog = [], now = 7\<rparr>"
proof -
  let ?old = "empty_store\<lparr>dialog_version := Some ''1.31'',
                  session_state := [''test_1'' \<mapsto> ''billing.collect_amount''],
                  session_context := [''test_1'' \<mapsto> example_context]\<rparr>"
  let ?ok = "empty_store\<lparr>dialog_version := Some ''1.32'',
                  session_state := [''test_1'' \<mapsto> ''billing.collect_amount''],
                  session_context := [''test_1'' \<mapsto> example_context]\<rparr>"
  have a: "\<not> (dialog_version ?old = Some version \<and>
               session_context ?old (chat_id example_env) \<noteq> None)"
    by (simp add: version_def)
  have b: "dialog_version ?ok = Some version \<and>
           session_context ?ok (chat_id example_env) = Some example_context \<and>
           session_state ?ok (chat_id example_env) = Some ''billing.collect_amount'' \<and>
           move_to_resolve example_env (TName ''billing.collect_amount'') (init_dialog ?ok 7)
             = Inr (''billing.collect_amount'', Some ''init'')"
    by (simp add: version_def example_env_def move_to_resolve_def resolve_name_def)
  have g: "get_state example_env (init_dialog ?ok 7) (Some ''billing.collect_amount'')
             = Inr (Some \<lparr>action = Some (say ''Noted''), requires = [need_card],
                             accepts_message = (\<lambda>ks. ''amount'' \<in> set ks)\<rparr>)"
    by (simp add: get_state_def get_flow_def example_env_def billing_flow_def default_flow_def
          collect_amount_state_def)
  from init_fresh_or_restored[of ?old example_env 7] a
  have 1: "init example_env ?old 7 = Inr ((init_dialog ?old 7)\<lparr>ctxt := Some empty_context\<rparr>)"
    by blast
  from init_fresh_or_restored[of ?ok example_env 7 _ example_context
         "''billing.collect_amount''" "''billing.collect_amount''" "Some ''init''"] b
  have 2: "init example_env ?ok 7 =
        Inr ((init_dialog ?ok 7)
               \<lparr>current_state_name :=
                  (case get_state example_env (init_dialog ?ok 7) (Some ''billing.collect_amount'') of
                     Inr (Some S) \<Rightarrow> ''billing.collect_amount''
                   | _ \<Rightarrow> ''default.root''),
                ctxt := Some example_context\<rparr>)"
    by blast
  show ?thesis
    unfolding 1 2 g by (simp add: init_dialog_def)
qed

section \<open>Event types and the turn counter\<close>

text \<open>
  C8. For an event whose type is not \<^verbatim>\<open>message\<close>, \<^verbatim>\<open>postback\<close> or
  \<^verbatim>\<open>schedule\<close>, \<^verbatim>\<open>process\<close> returns at once: the channel adapter was told that
  processing started, and nothing else of the dialog changed (the current state, the
  counter, the entities, the history are as before). For an event of one of these three
  types, the counter is one more than before when the lines that precede the transition
  rules are done, whether the turn ends there or not; and it is one more than before at
  the end of \<^verbatim>\<open>process\<close>, as no line of the engine changes it again, provided no
  action of the registry changes it.
\<close>

theorem process_event_types_and_counter:
  "(mt \<notin> set [''message'', ''postback'', ''schedule''] \<longrightarrow>
      process e mt ents d = Returned () (d\<lparr>sent := sent d @ [ProcessingStart]\<rparr>)) \<and>
   (mt \<in> set [''message'', ''postback'', ''schedule''] \<and> ctxt d = Some c \<longrightarrow>
      counter_of (final (process_begin e mt ents d)) = Some (counter c + 1)) \<and>
   (mt \<in> set [''message'', ''postback'', ''schedule''] \<and> ctxt d = Some c \<and>
    actions_keep_counter e \<longrightarrow>
      counter_of (final (process e mt ents d)) = Some (counter c + 1))"
proof (intro conjI impI)
  assume "mt \<notin> set [''message'', ''postback'', ''schedule'']"
  then show "process e mt ents d = Returned () (d\<lparr>sent := sent d @ [ProcessingStart]\<rparr>)"
    by (simp add: process_def process_begin_def Let_def)
next
  assume "mt \<in> set [''message'', ''postback'', ''schedule''] \<and> ctxt d = Some c"
  then show "counter_of (final (process_begin e mt ents d)) = Some (counter c + 1)"
    using process_begin_counter by blast
next
  assume h: "mt \<in> set [''message'', ''postback'', ''schedule''] \<and> ctxt d = Some c \<and>
    actions_keep_counter e"
  then have b: "counter_of (final (process_begin e mt ents d)) = Some (counter c + 1)"
    using process_begin_counter by blast
  from h have k: "actions_keep_counter e" by simp
  show "counter_of (final (process e mt ents d)) = Some (counter c + 1)"
  proof (cases "process_begin e mt ents d")
    case (Raised x d1)
    with b show ?thesis by (simp add: process_def)
  next
    case (Returned r d1)
    with b have c1: "counter_of d1 = Some (counter c + 1)" by simp
    show ?thesis
    proof (cases r)
      case None
      with Returned c1 show ?thesis by (simp add: process_def)
    next
      case (Some en)
      have "counter_of (final (process e mt ents d))
              = counter_of (final (process_transitions e en d1))"
        using Returned Some
        by (cases "process_transitions e en d1") (simp_all add: process_def counter_of_def)
      with process_transitions_counter[OF k, of en d1] c1 show ?thesis by simp
    qed
  qed
qed

theorem process_event_types_and_counter_witness:
  "process example_env ''seen'' [(''amount'', ''42'')] example_dialog
     = Returned () (example_dialog\<lparr>sent := [ProcessingStart]\<rparr>) \<and>
   actions_keep_counter example_env \<and>
   counter_of example_dialog = Some 3 \<and>
   counter_of (final (process example_env ''postback'' [(''_state'', ''billing.pay'')]
                        example_dialog)) = Some 4"
proof -
  have t: "''seen'' \<notin> set [''message'', ''postback'', ''schedule'']"
    and t': "''postback'' \<in> set [''message'', ''postback'', ''schedule'']" by simp_all
  have c: "ctxt example_dialog = Some example_context" "sent example_dialog = []"
    "counter example_context = 3"
    by (simp_all add: example_defs)
  have k: "actions_keep_counter example_env"
    by (simp add: actions_keep_counter_def counter_of_def example_defs)
  from process_event_types_and_counter[of "''seen''" example_env "[(''amount'', ''42'')]"
         example_dialog example_context] t c
  have 1: "process example_env ''seen'' [(''amount'', ''42'')] example_dialog
     = Returned () (example_dialog\<lparr>sent := [ProcessingStart]\<rparr>)" by simp
  from process_event_types_and_counter[of "''postback''" example_env
         "[(''_state'', ''billing.pay'')]" example_dialog example_context] t' c k
  have 2: "counter_of (final (process example_env ''postback'' [(''_state'', ''billing.pay'')]
                        example_dialog)) = Some 4" by simp
  from 1 2 k c show ?thesis by (simp add: counter_of_def)
qed

section \<open>The fallback rule\<close>

text \<open>
  C3, as amended. In a turn in which neither the override nor the intent transition fires
  and the current state accepts none of the new entity keys, the fallback rule calls
  \<^verbatim>\<open>move_to('default.root')\<close>: the target is the root state of the flow named
  \<^verbatim>\<open>default\<close>, whatever the current flow is. When that state is registered and is not
  the current one, the engine enters it (its action is selected on a dialog whose pointer is
  \<^verbatim>\<open>default.root\<close>); when it is not registered or is already current, the session
  stays where it is; in both cases the state is saved.

  The claim as stated, with the root of the current flow as target, fails on the
  example session: from \<^verbatim>\<open>billing.collect_amount\<close>, a message without entities leads
  to \<^verbatim>\<open>default.root\<close> and not to \<^verbatim>\<open>billing.root\<close>.
\<close>

theorem fallback_moves_to_default_root:
  assumes "check_state_transition e d = Returned False d1"
    and "check_intent_transition e d = Returned False d2"
    and "get_state e d None = Inr (Some st)"
    and "\<not> accepts_message st (map fst ents)"
  shows
    "process_transitions e ents d =
       (case move_to e (TName ''default.root'') False False d2 of
          Raised x d3 \<Rightarrow> Raised x d3
        | Returned u d3 \<Rightarrow> Returned () (save_state e d3)) \<and>
     move_to_resolve e (TName ''default.root'') d2 = Inr (''default.root'', Some ''init'') \<and>
     (get_state e d (Some ''default.root'') = Inr (Some S) \<and>
      current_state_name d \<noteq> ''default.root'' \<and> ctxt d = Some c \<and> recording d = Some r \<longrightarrow>
        move_to e (TName ''default.root'') False False d2 =
          move_to_finish e (Some ''init'') ''default.root''
            (move_to_try e (current_state_name d) ''default.root''
               (entered ''default.root'' c r d2)) \<and>
        current_state_name (entered ''default.root'' c r d2) = ''default.root'') \<and>
     (get_state e d (Some ''default.root'') = Inr None \<or>
      current_state_name d = ''default.root'' \<longrightarrow>
        process_transitions e ents d = Returned () (save_state e d2))"
proof -
  from assms(1) have s: "check_state_transition e d = Returned False d"
    using check_state_False_same by blast
  have e2: "d2 = d\<lparr>errlog := errlog d2\<rparr>"
    using assms(2) by (rule check_intent_False_errlog)
  then have fr: "current_state_name d2 = current_state_name d" "ctxt d2 = ctxt d"
    "recording d2 = recording d"
    by (metis dialog.select_convs(1) dialog.surjective dialog.update_convs(8),
        metis dialog.select_convs(2) dialog.surjective dialog.update_convs(8),
        metis dialog.select_convs(3) dialog.surjective dialog.update_convs(8))
  from fr(1) assms(3) have g2: "get_state e d2 None = Inr (Some st)"
    using get_state_cong[of d2 d e None] by simp
  have p: "process_transitions e ents d =
       (case move_to e (TName ''default.root'') False False d2 of
          Raised x d3 \<Rightarrow> Raised x d3
        | Returned u d3 \<Rightarrow> Returned () (save_state e d3))"
    using s assms(2,4) g2
    by (simp add: process_transitions_def move_by_entities_def split: outcome.splits)
  have q: "get_state e d (Some ''default.root'') = Inr (Some S) \<and>
      current_state_name d \<noteq> ''default.root'' \<and> ctxt d = Some c \<and> recording d = Some r \<longrightarrow>
        move_to e (TName ''default.root'') False False d2 =
          move_to_finish e (Some ''init'') ''default.root''
            (move_to_try e (current_state_name d) ''default.root''
               (entered ''default.root'' c r d2))"
  proof
    assume h: "get_state e d (Some ''default.root'') = Inr (Some S) \<and>
      current_state_name d \<noteq> ''default.root'' \<and> ctxt d = Some c \<and> recording d = Some r"
    then have "get_state e d2 (Some ''default.root'') = Inr (Some S)"
      using get_state_default_root[of e d2 d] by simp
    from move_to_enters[OF default_root_resolves this, of c r False] h fr
    show "move_to e (TName ''default.root'') False False d2 =
          move_to_finish e (Some ''init'') ''default.root''
            (move_to_try e (current_state_name d) ''default.root''
               (entered ''default.root'' c r d2))"
      by auto
  qed
  have n: "get_state e d (Some ''default.root'') = Inr None \<or>
      current_state_name d = ''default.root'' \<longrightarrow>
        process_transitions e ents d = Returned () (save_state e d2)"
  proof
    assume h: "get_state e d (Some ''default.root'') = Inr None \<or>
      current_state_name d = ''default.root''"
    have "move_to e (TName ''default.root'') False False d2 = Returned False d2"
    proof (cases "current_state_name d = ''default.root''")
      case True
      with fr(1) have "move_to_resolve e (TName ''default.root'') d2
                         = Inr (current_state_name d2, Some ''init'')"
        by (simp add: default_root_resolves)
      then show ?thesis by (rule move_to_identical)
    next
      case False
      with h have "get_state e d2 (Some ''default.root'') = Inr None"
        using get_state_default_root[of e d2 d] by simp
      with default_root_resolves show ?thesis
        by (simp add: move_to_def)
    qed
    with p show "process_transitions e ents d = Returned () (save_state e d2)" by simp
  qed
  from p q n default_root_resolves show ?thesis by simp
qed

theorem fallback_current_flow_root_counterexample:
  "current_state_name example_dialog = ''billing.collect_amount'' \<and>
   process_begin example_env ''message'' [] example_dialog
     = Returned (Some [])
         (example_dialog\<lparr>ctxt := Some (example_context\<lparr>counter := 4\<rparr>),
                         sent := [ProcessingStart],
                         db := empty_store\<lparr>session_active := [''test_1'' \<mapsto> 4]\<rparr>\<rparr>) \<and>
   check_state_transition example_env
       (example_dialog\<lparr>ctxt := Some (example_context\<lparr>counter := 4\<rparr>),
                       sent := [ProcessingStart],
                       db := empty_store\<lparr>session_active := [''test_1'' \<mapsto> 4]\<rparr>\<rparr>)
     = Returned False
         (example_dialog\<lparr>ctxt := Some (example_context\<lparr>counter := 4\<rparr>),
                         sent := [ProcessingStart],
                         db := empty_store\<lparr>session_active := [''test_1'' \<mapsto> 4]\<rparr>\<rparr>) \<and>
   check_intent_transition example_env
       (example_dialog\<lparr>ctxt := Some (example_context\<lparr>counter := 4\<rparr>),
                       sent := [ProcessingStart],
                       db := empty_store\<lparr>session_active := [''test_1'' \<mapsto> 4]\<rparr>\<rparr>)
     = Returned False
         (example_dialog\<lparr>ctxt := Some (example_context\<lparr>counter := 4\<rparr>),
                         sent := [ProcessingStart],
                         db := empty_store\<lparr>session_active := [''test_1'' \<mapsto> 4]\<rparr>\<rparr>) \<and>
   get_state example_env
       (example_dialog\<lparr>ctxt := Some (example_context\<lparr>counter := 4\<rparr>),
                       sent := [ProcessingStart],
                       db := empty_store\<lparr>session_active := [''test_1'' \<mapsto> 4]\<rparr>\<rparr>) None
     = Inr (Some collect_amount_state) \<and>
   \<not> accepts_message collect_amount_state (map fst []) \<and>
   current_state_name (final (process example_env ''message'' [] example_dialog))
     = ''default.root'' \<and>
   current_state_name (final (process example_env ''message'' [] example_dialog))
     \<noteq> ''billing.root''"
  by (simp add: model_defs run_defs example_defs)

theorem fallback_moves_to_default_root_witness:
  "process_transitions example_env []
     (example_dialog\<lparr>ctxt := Some (example_context\<lparr>counter := 4\<rparr>)\<rparr>)
     = (case move_to example_env (TName ''default.root'') False False
               (example_dialog\<lparr>ctxt := Some (example_context\<lparr>counter := 4\<rparr>)\<rparr>) of
          Raised x d3 \<Rightarrow> Raised x d3
        | Returned u d3 \<Rightarrow> Returned () (save_state example_env d3)) \<and>
   current_state_name (final (process_transitions example_env []
     (example_dialog\<lparr>ctxt := Some (example_context\<lparr>counter := 4\<rparr>)\<rparr>))) = ''default.root''"
proof -
  let ?d = "example_dialog\<lparr>ctxt := Some (example_context\<lparr>counter := 4\<rparr>)\<rparr>"
  have s: "check_state_transition example_env ?d = Returned False ?d"
    by (simp add: model_defs example_defs)
  have i: "check_intent_transition example_env ?d = Returned False ?d"
    by (simp add: model_defs example_defs)
  have g: "get_state example_env ?d None = Inr (Some collect_amount_state)"
    by (simp add: model_defs example_defs)
  have a: "\<not> accepts_message collect_amount_state (map fst [])"
    by (simp add: collect_amount_state_def)
  have m: "current_state_name
             (final (case move_to example_env (TName ''default.root'') False False ?d of
                       Raised x d3 \<Rightarrow> Raised x d3
                     | Returned u d3 \<Rightarrow> Returned () (save_state example_env d3)))
             = ''default.root''"
    by (simp add: model_defs run_defs example_defs)
  from fallback_moves_to_default_root[OF s i g a] m
  show ?thesis by simp
qed

section \<open>The order of the rules\<close>

text \<open>
  C1, as amended. The four rules are tried in a fixed order, and a rule wins only when
  its \<^verbatim>\<open>move_to\<close> succeeds. When the \<^verbatim>\<open>_state\<close> entity of age 0 names a registered
  state other than the current one, the turn is that \<^verbatim>\<open>move_to\<close> and nothing else: the
  engine enters the named state, and no later rule is evaluated, whatever the intent is
  and whether or not the current state accepts the new entity keys. When it is absent, or
  names a state that is not registered, or names the current state, the first rule
  returns \<^verbatim>\<open>False\<close> on the unchanged dialog, and the later rules are evaluated. Then,
  if an intent entity is present, the intent transition is attempted: it is the
  \<^verbatim>\<open>move_to\<close> into the state that the current flow gives for the intent, or else into
  the root of the first flow that matches it; when that state is registered and is not
  the current one, the turn is that \<^verbatim>\<open>move_to\<close> and no later rule is evaluated; when
  no flow has a state for the intent, an error line is logged and the rule returns
  \<^verbatim>\<open>False\<close>; when there is no intent, it returns \<^verbatim>\<open>False\<close> on the unchanged
  dialog. When the first two rules return \<^verbatim>\<open>False\<close>, the action of the current state
  is re-run in place if the state accepts one of the new entity keys, and the fallback
  runs otherwise.

  The claim as stated, that a \<^verbatim>\<open>_state\<close> entity of age 0 always ends the evaluation,
  fails on the example session: a postback whose \<^verbatim>\<open>_state\<close> is the current state
  \<^verbatim>\<open>billing.collect_amount\<close> goes on to the fallback rule, which moves the session to
  \<^verbatim>\<open>default.root\<close> and runs its action.
\<close>

theorem rules_in_order:
  assumes "ctxt d = Some c"
  shows
    "(context_get c ''_state'' 0 = Some s \<and> move_to_resolve e (TName s) d = Inr (n, a) \<and>
      get_state e d (Some n) = Inr (Some S) \<and> n \<noteq> current_state_name d \<longrightarrow>
        process_transitions e ents d =
          (case move_to e (TName s) False False d of
             Raised x d1 \<Rightarrow> Raised x d1
           | Returned u d1 \<Rightarrow> Returned () d1) \<and>
        (recording d = Some r \<longrightarrow>
           move_to e (TName s) False False d =
             move_to_finish e a n
               (move_to_try e (current_state_name d) n (entered n c r d)))) \<and>
     (context_get c ''_state'' 0 = Some s \<and> move_to_resolve e (TName s) d = Inr (n, a) \<and>
      (get_state e d (Some n) = Inr None \<or> n = current_state_name d) \<longrightarrow>
        check_state_transition e d = Returned False d) \<and>
     (context_get c ''_state'' 0 = None \<and> CHR ''.'' \<in> set (current_state_name d) \<and>
      CHR '':'' \<notin> set (current_state_name d) \<longrightarrow>
        check_state_transition e d = Returned False d) \<and>
     (check_state_transition e d = Returned True d1 \<longrightarrow>
        process_transitions e ents d = Returned () d1) \<and>
     (check_state_transition e d = Returned False d1 \<longrightarrow>
        d1 = d \<and>
        (check_intent_transition e d = Returned True d2 \<longrightarrow>
           process_transitions e ents d = Returned () d2) \<and>
        (check_intent_transition e d = Returned False d2 \<and>
         get_state e d None = Inr (Some st) \<longrightarrow>
           d2 = d\<lparr>errlog := errlog d2\<rparr> \<and>
           process_transitions e ents d =
             (if accepts_message st (map fst ents)
              then (case run_accept e True d2 of
                      Raised x d3 \<Rightarrow> Raised x d3
                    | Returned u d3 \<Rightarrow> Returned () (save_state e d3))
              else (case move_by_entities e ents d2 of
                      Raised x d3 \<Rightarrow> Raised x d3
                    | Returned u d3 \<Rightarrow> Returned () (save_state e d3))))) \<and>
     (\<not> truthy (intent_get c) \<longrightarrow> check_intent_transition e d = Returned False d) \<and>
     (truthy (intent_get c) \<and> get_flow e d None = Inr (Some fl) \<and>
      intent_target e fl (or_else (intent_get c) []) = Some t \<and> t \<noteq> [] \<longrightarrow>
        check_intent_transition e d = move_to e (TName t) False False d \<and>
        (check_state_transition e d = Returned False d1 \<and>
         move_to_resolve e (TName t) d = Inr (n2, a2) \<and>
         get_state e d (Some n2) = Inr (Some S2) \<and> n2 \<noteq> current_state_name d \<longrightarrow>
           process_transitions e ents d =
             (case move_to e (TName t) False False d of
                Raised x d3 \<Rightarrow> Raised x d3
              | Returned u d3 \<Rightarrow> Returned () d3))) \<and>
     (truthy (intent_get c) \<and> get_flow e d None = Inr (Some fl) \<and>
      \<not> truthy (intent_target e fl (or_else (intent_get c) [])) \<longrightarrow>
        check_intent_transition e d =
          Returned False
            (d\<lparr>errlog := errlog d @
                 [LogError (''Error! Found intent '' @ [CHR 0x22] @
                            or_else (intent_get c) [] @ [CHR 0x22] @
                            '' but no flow present for it!'')]\<rparr>)) \<and>
     (truthy (get_state_for_intent fl i) \<longrightarrow>
        intent_target e fl i = get_state_for_intent fl i) \<and>
     (\<not> truthy (get_state_for_intent fl i) \<and>
      find (\<lambda>f. matches_intent f i) (map snd (flows e)) = Some f \<longrightarrow>
        intent_target e fl i = Some (flow_name f @ ''.root''))"
proof -
  have i0: "\<not> truthy (intent_get c) \<longrightarrow> check_intent_transition e d = Returned False d"
    using assms by (simp add: check_intent_transition_def)
  have i1: "truthy (intent_get c) \<and> get_flow e d None = Inr (Some fl) \<and>
      intent_target e fl (or_else (intent_get c) []) = Some t \<and> t \<noteq> [] \<longrightarrow>
        check_intent_transition e d = move_to e (TName t) False False d"
    using assms by (simp add: check_intent_transition_def Let_def)
  have i2: "truthy (intent_get c) \<and> get_flow e d None = Inr (Some fl) \<and>
      intent_target e fl (or_else (intent_get c) []) = Some t \<and> t \<noteq> [] \<and>
      check_state_transition e d = Returned False d1 \<and>
      move_to_resolve e (TName t) d = Inr (n2, a2) \<and>
      get_state e d (Some n2) = Inr (Some S2) \<and> n2 \<noteq> current_state_name d \<longrightarrow>
        process_transitions e ents d =
          (case move_to e (TName t) False False d of
             Raised x d3 \<Rightarrow> Raised x d3
           | Returned u d3 \<Rightarrow> Returned () d3)"
  proof
    assume h: "truthy (intent_get c) \<and> get_flow e d None = Inr (Some fl) \<and>
      intent_target e fl (or_else (intent_get c) []) = Some t \<and> t \<noteq> [] \<and>
      check_state_transition e d = Returned False d1 \<and>
      move_to_resolve e (TName t) d = Inr (n2, a2) \<and>
      get_state e d (Some n2) = Inr (Some S2) \<and> n2 \<noteq> current_state_name d"
    then have ci: "check_intent_transition e d = move_to e (TName t) False False d"
      using i1 by blast
    from h have s: "check_state_transition e d = Returned False d"
      using check_state_False_same by blast
    from h have nf: "\<And>d'. move_to e (TName t) False False d \<noteq> Returned False d'"
      using move_to_moves_or_raises by blast
    show "process_transitions e ents d =
          (case move_to e (TName t) False False d of
             Raised x d3 \<Rightarrow> Raised x d3
           | Returned u d3 \<Rightarrow> Returned () d3)"
    proof (cases "move_to e (TName t) False False d")
      case (Raised x d')
      with s ci show ?thesis by (simp add: process_transitions_def)
    next
      case (Returned b d')
      with nf have "b" by (cases b) auto
      with s ci Returned show ?thesis by (simp add: process_transitions_def)
    qed
  qed
  have i3: "truthy (intent_get c) \<and> get_flow e d None = Inr (Some fl) \<and>
      \<not> truthy (intent_target e fl (or_else (intent_get c) [])) \<longrightarrow>
        check_intent_transition e d =
          Returned False
            (d\<lparr>errlog := errlog d @
                 [LogError (''Error! Found intent '' @ [CHR 0x22] @
                            or_else (intent_get c) [] @ [CHR 0x22] @
                            '' but no flow present for it!'')]\<rparr>)"
    using assms by (simp add: check_intent_transition_def Let_def)
  have t1: "truthy (get_state_for_intent fl i) \<longrightarrow>
        intent_target e fl i = get_state_for_intent fl i"
    by (simp add: intent_target_def)
  have t2: "\<not> truthy (get_state_for_intent fl i) \<and>
      find (\<lambda>f. matches_intent f i) (map snd (flows e)) = Some f \<longrightarrow>
        intent_target e fl i = Some (flow_name f @ ''.root'')"
    by (simp add: intent_target_def)
  from rules_cascade[OF assms, of s e n a S ents r d1 d2 st] i0 i1 i2 i3 t1 t2
  show ?thesis by blast
qed

theorem override_always_wins_counterexample:
  "process_begin example_env ''postback'' [(''_state'', ''billing.collect_amount'')]
       example_dialog
     = Returned (Some [(''_state'', ''billing.collect_amount'')])
         (example_dialog
            \<lparr>ctxt := Some (example_context
                             \<lparr>counter := 4,
                              entities := [(''_state'', ''billing.collect_amount'', 0)]\<rparr>),
             sent := [ProcessingStart],
             db := empty_store\<lparr>session_active := [''test_1'' \<mapsto> 4]\<rparr>\<rparr>) \<and>
   context_get (example_context
                  \<lparr>counter := 4,
                   entities := [(''_state'', ''billing.collect_amount'', 0)]\<rparr>)
       ''_state'' 0 = Some ''billing.collect_amount'' \<and>
   current_state_name
       (final (process example_env ''postback'' [(''_state'', ''billing.collect_amount'')]
                 example_dialog)) = ''default.root'' \<and>
   sent (final (process example_env ''postback'' [(''_state'', ''billing.collect_amount'')]
                  example_dialog))
     = [ProcessingStart, StateChange ''default.root'', PostMessage (TextMessage ''Hello''),
        ProcessingEnd]"
  by (simp add: model_defs run_defs example_defs)

theorem rules_in_order_witness:
  "accepts_message collect_amount_state (map fst [(''_state'', ''billing.pay''), (''amount'', ''42'')]) \<and>
   sent (final (process_transitions example_env [(''_state'', ''billing.pay''), (''amount'', ''42'')]
      (example_dialog
         \<lparr>ctxt := Some (example_context
            \<lparr>entities := [(''_state'', ''billing.pay'', 0), (''amount'', ''42'', 0)]\<rparr>)\<rparr>)))
     = [StateChange ''billing.pay'', PostMessage (TextMessage ''Which card?'')] \<and>
   current_state_name (final (process_transitions example_env
      [(''_state'', ''billing.pay''), (''amount'', ''42'')]
      (example_dialog
         \<lparr>ctxt := Some (example_context
            \<lparr>entities := [(''_state'', ''billing.pay'', 0), (''amount'', ''42'', 0)]\<rparr>)\<rparr>)))
     = ''billing.pay'' \<and>
   check_state_transition example_env
      (example_dialog
         \<lparr>ctxt := Some (example_context
            \<lparr>entities := [(''_state'', ''billing.collect_amount'', 0)]\<rparr>)\<rparr>)
     = Returned False
         (example_dialog
            \<lparr>ctxt := Some (example_context
               \<lparr>entities := [(''_state'', ''billing.collect_amount'', 0)]\<rparr>)\<rparr>) \<and>
   accepts_message collect_amount_state (map fst [(''intent'', ''pay''), (''amount'', ''42'')]) \<and>
   sent (final (process_transitions example_env [(''intent'', ''pay''), (''amount'', ''42'')]
      (example_dialog
         \<lparr>ctxt := Some (example_context
            \<lparr>entities := [(''intent'', ''pay'', 0), (''amount'', ''42'', 0)]\<rparr>)\<rparr>)))
     = [StateChange ''billing.pay'', PostMessage (TextMessage ''Which card?'')] \<and>
   check_intent_transition example_env
      (example_dialog
         \<lparr>ctxt := Some (example_context\<lparr>entities := [(''intent'', ''billing'', 2)]\<rparr>)\<rparr>)
     = move_to example_env (TName ''billing.root'') False False
         (example_dialog
            \<lparr>ctxt := Some (example_context\<lparr>entities := [(''intent'', ''billing'', 2)]\<rparr>)\<rparr>) \<and>
   check_intent_transition example_env
      (example_dialog
         \<lparr>ctxt := Some (example_context\<lparr>entities := [(''intent'', ''weather'', 0)]\<rparr>)\<rparr>)
     = Returned False
         (example_dialog
            \<lparr>ctxt := Some (example_context\<lparr>entities := [(''intent'', ''weather'', 0)]\<rparr>),
             errlog := [LogError (''Error! Found intent '' @ [CHR 0x22] @ ''weather'' @
                                  [CHR 0x22] @ '' but no flow present for it!'')]\<rparr>) \<and>
   check_intent_transition example_env example_dialog = Returned False example_dialog"
proof -
  let ?c = "example_context\<lparr>entities := [(''_state'', ''billing.pay'', 0), (''amount'', ''42'', 0)]\<rparr>"
  let ?d = "example_dialog\<lparr>ctxt := Some ?c\<rparr>"
  let ?c' = "example_context\<lparr>entities := [(''_state'', ''billing.collect_amount'', 0)]\<rparr>"
  let ?d' = "example_dialog\<lparr>ctxt := Some ?c'\<rparr>"
  let ?pay = "\<lparr>action = Some (say ''Paid''), requires = [need_amount, need_card],
                accepts_message = (\<lambda>ks. False)\<rparr>"
  have c: "ctxt ?d = Some ?c" and c': "ctxt ?d' = Some ?c'" by simp_all
  have h: "context_get ?c ''_state'' 0 = Some ''billing.pay'' \<and>
           move_to_resolve example_env (TName ''billing.pay'') ?d
             = Inr (''billing.pay'', Some ''init'') \<and>
           get_state example_env ?d (Some ''billing.pay'') = Inr (Some ?pay) \<and>
           ''billing.pay'' \<noteq> current_state_name ?d"
    by (simp add: model_defs example_defs)
  have h': "context_get ?c' ''_state'' 0 = Some ''billing.collect_amount'' \<and>
            move_to_resolve example_env (TName ''billing.collect_amount'') ?d'
              = Inr (''billing.collect_amount'', Some ''init'') \<and>
            (get_state example_env ?d' (Some ''billing.collect_amount'') = Inr None \<or>
             ''billing.collect_amount'' = current_state_name ?d')"
    by (simp add: model_defs example_defs)
  have a: "accepts_message collect_amount_state
             (map fst [(''_state'', ''billing.pay''), (''amount'', ''42'')])"
    by (simp add: collect_amount_state_def)
  from rules_in_order[OF c, of "''billing.pay''" example_env "''billing.pay''" "Some ''init''"
         ?pay "[(''_state'', ''billing.pay''), (''amount'', ''42'')]"] h
  have 1: "process_transitions example_env [(''_state'', ''billing.pay''), (''amount'', ''42'')] ?d =
          (case move_to example_env (TName ''billing.pay'') False False ?d of
             Raised x d1 \<Rightarrow> Raised x d1
           | Returned u d1 \<Rightarrow> Returned () d1)"
    by blast
  from rules_in_order[OF c', of "''billing.collect_amount''" example_env
         "''billing.collect_amount''" "Some ''init''"] h'
  have 2: "check_state_transition example_env ?d' = Returned False ?d'"
    by blast
  have m: "sent (final (case move_to example_env (TName ''billing.pay'') False False ?d of
             Raised x d1 \<Rightarrow> Raised x d1
           | Returned u d1 \<Rightarrow> Returned () d1))
            = [StateChange ''billing.pay'', PostMessage (TextMessage ''Which card?'')]"
    "current_state_name (final (case move_to example_env (TName ''billing.pay'') False False ?d of
             Raised x d1 \<Rightarrow> Raised x d1
           | Returned u d1 \<Rightarrow> Returned () d1)) = ''billing.pay''"
    by (simp_all add: model_defs run_defs example_defs)
  let ?ci = "example_context\<lparr>entities := [(''intent'', ''pay'', 0), (''amount'', ''42'', 0)]\<rparr>"
  let ?di = "example_dialog\<lparr>ctxt := Some ?ci\<rparr>"
  let ?cb = "example_context\<lparr>entities := [(''intent'', ''billing'', 2)]\<rparr>"
  let ?db = "example_dialog\<lparr>ctxt := Some ?cb\<rparr>"
  let ?cw = "example_context\<lparr>entities := [(''intent'', ''weather'', 0)]\<rparr>"
  let ?dw = "example_dialog\<lparr>ctxt := Some ?cw\<rparr>"
  have ci: "ctxt ?di = Some ?ci" and cb: "ctxt ?db = Some ?cb" and cw: "ctxt ?dw = Some ?cw"
    and ce: "ctxt example_dialog = Some example_context"
    by (simp_all add: example_defs)
  have hi: "truthy (intent_get ?ci) \<and> get_flow example_env ?di None = Inr (Some billing_flow) \<and>
            intent_target example_env billing_flow (or_else (intent_get ?ci) [])
              = Some ''billing.pay'' \<and> ''billing.pay'' \<noteq> []"
    by (simp add: model_defs intent_target_def example_defs)
  have si: "check_state_transition example_env ?di = Returned False ?di"
    by (simp add: model_defs example_defs)
  have gi: "move_to_resolve example_env (TName ''billing.pay'') ?di
              = Inr (''billing.pay'', Some ''init'') \<and>
            get_state example_env ?di (Some ''billing.pay'') = Inr (Some ?pay) \<and>
            ''billing.pay'' \<noteq> current_state_name ?di"
    by (simp add: model_defs example_defs)
  have ai: "accepts_message collect_amount_state
              (map fst [(''intent'', ''pay''), (''amount'', ''42'')])"
    by (simp add: collect_amount_state_def)
  from rules_in_order[OF ci, where e = example_env and fl = billing_flow
         and t = "''billing.pay''" and ?d1.0 = ?di and ?n2.0 = "''billing.pay''"
         and ?a2.0 = "Some ''init''" and ?S2.0 = ?pay
         and ents = "[(''intent'', ''pay''), (''amount'', ''42'')]"] hi si gi
  have 3: "process_transitions example_env [(''intent'', ''pay''), (''amount'', ''42'')] ?di =
          (case move_to example_env (TName ''billing.pay'') False False ?di of
             Raised x d3 \<Rightarrow> Raised x d3
           | Returned u d3 \<Rightarrow> Returned () d3)"
    by blast
  have mi: "sent (final (case move_to example_env (TName ''billing.pay'') False False ?di of
             Raised x d3 \<Rightarrow> Raised x d3
           | Returned u d3 \<Rightarrow> Returned () d3))
            = [StateChange ''billing.pay'', PostMessage (TextMessage ''Which card?'')]"
    by (simp add: model_defs run_defs example_defs)
  have hb: "truthy (intent_get ?cb) \<and> get_flow example_env ?db None = Inr (Some billing_flow) \<and>
            intent_target example_env billing_flow (or_else (intent_get ?cb) [])
              = Some ''billing.root'' \<and> ''billing.root'' \<noteq> []"
    by (simp add: model_defs intent_target_def example_defs)
  from rules_in_order[OF cb, where e = example_env and fl = billing_flow
         and t = "''billing.root''"] hb
  have 4: "check_intent_transition example_env ?db
             = move_to example_env (TName ''billing.root'') False False ?db"
    by blast
  have hw: "truthy (intent_get ?cw) \<and> get_flow example_env ?dw None = Inr (Some billing_flow) \<and>
            \<not> truthy (intent_target example_env billing_flow (or_else (intent_get ?cw) []))"
    "or_else (intent_get ?cw) [] = ''weather''" "errlog ?dw = []"
    by (simp_all add: model_defs intent_target_def example_defs)
  from rules_in_order[OF cw, where e = example_env and fl = billing_flow] hw
  have 5: "check_intent_transition example_env ?dw
     = Returned False
         (?dw\<lparr>errlog := [LogError (''Error! Found intent '' @ [CHR 0x22] @ ''weather'' @
                                  [CHR 0x22] @ '' but no flow present for it!'')]\<rparr>)"
    by simp
  have he: "\<not> truthy (intent_get example_context)"
    by (simp add: model_defs example_defs)
  from rules_in_order[OF ce, where e = example_env] he
  have 6: "check_intent_transition example_env example_dialog = Returned False example_dialog"
    by blast
  from 1 2 a m 3 mi ai 4 5 6 show ?thesis by simp
qed

end
